theory Spec2Isabelle
  imports Complex_Main "HOL-Library.Log_Nat"
begin

section \<open>Python values used by dfxexample.py\<close>

subsection \<open>Exceptions\<close>

text \<open>
  The exceptions that the modelled part of \<^verbatim>\<open>doExtraction\<close> can raise.  None of them is
  caught anywhere in the source, so each one ends the run where it is raised.
\<close>

datatype error =
    SystemExit int
  | ZeroDivisionError
  | KeyError string
  | ValueError
  | OverflowError

subsection \<open>Floats (IEEE 754 binary64)\<close>

text \<open>
  A Python float is a binary64 value.  The finite ones are carried by the rational they
  denote; the two zeros are identified (the program never observes the sign of a zero:
  division by either zero raises, and \<^verbatim>\<open>==\<close> does not tell them apart).
\<close>

datatype pyfloat = Finite rat | PosInf | NegInf | NaN

definition pow2 :: "int \<Rightarrow> rat" where
  "pow2 k = (if 0 \<le> k then 2 ^ nat k else 1 / 2 ^ nat (- k))"

text \<open>The binary exponent of a positive rational: \<open>2 ^ ilog2 q \<le> q < 2 ^ (ilog2 q + 1)\<close>.\<close>

definition ilog2 :: "rat \<Rightarrow> int" where
  "ilog2 q = (if 1 \<le> q then bitlen \<lfloor>q\<rfloor> - 1 else - bitlen (\<lceil>1 / q\<rceil> - 1))"

definition round_half_even :: "rat \<Rightarrow> int" where
  "round_half_even x =
     (let f = \<lfloor>x\<rfloor>; r = x - of_int f
      in if r < 1 / 2 then f
         else if 1 / 2 < r then f + 1
         else if even f then f else f + 1)"

text \<open>
  The exponent of the last place of the binary64 format at \<open>x\<close>: 53 significant bits,
  and never below the subnormal spacing \<open>2 ^ -1074\<close>.
\<close>

definition ulp_exp :: "rat \<Rightarrow> int" where
  "ulp_exp x = max (ilog2 \<bar>x\<bar> - 52) (- 1074)"

text \<open>
  Rounding of an exact result to binary64: to nearest, ties to even, overflow to an
  infinity once the rounded magnitude reaches \<open>2 ^ 1024\<close>.
\<close>

definition round_double :: "rat \<Rightarrow> pyfloat" where
  "round_double x =
     (if x = 0 then Finite 0
      else let e = ulp_exp x;
               y = of_int (round_half_even (x / pow2 e)) * pow2 e
           in if 2 ^ 1024 \<le> y then PosInf
              else if y \<le> - (2 ^ 1024) then NegInf
              else Finite y)"

text \<open>\<^verbatim>\<open>a / b\<close> on floats: Python raises on a zero divisor, otherwise the IEEE quotient.\<close>

fun float_truediv :: "pyfloat \<Rightarrow> pyfloat \<Rightarrow> error + pyfloat" where
  "float_truediv a (Finite b) =
     (if b = 0 then Inl ZeroDivisionError
      else case a of
             Finite x \<Rightarrow> Inr (round_double (x / b))
           | PosInf \<Rightarrow> Inr (if 0 < b then PosInf else NegInf)
           | NegInf \<Rightarrow> Inr (if 0 < b then NegInf else PosInf)
           | NaN \<Rightarrow> Inr NaN)"
| "float_truediv (Finite x) PosInf = Inr (Finite 0)"
| "float_truediv (Finite x) NegInf = Inr (Finite 0)"
| "float_truediv a b = Inr NaN"

text \<open>\<^verbatim>\<open>a * b\<close> on floats; it never raises.\<close>

fun float_mul :: "pyfloat \<Rightarrow> pyfloat \<Rightarrow> pyfloat" where
  "float_mul (Finite x) (Finite y) = round_double (x * y)"
| "float_mul NaN b = NaN"
| "float_mul a NaN = NaN"
| "float_mul (Finite x) PosInf = (if x = 0 then NaN else if 0 < x then PosInf else NegInf)"
| "float_mul (Finite x) NegInf = (if x = 0 then NaN else if 0 < x then NegInf else PosInf)"
| "float_mul PosInf (Finite y) = (if y = 0 then NaN else if 0 < y then PosInf else NegInf)"
| "float_mul NegInf (Finite y) = (if y = 0 then NaN else if 0 < y then NegInf else PosInf)"
| "float_mul PosInf PosInf = PosInf"
| "float_mul PosInf NegInf = NegInf"
| "float_mul NegInf PosInf = NegInf"
| "float_mul NegInf NegInf = PosInf"

text \<open>
  An int operand of a mixed operation is converted to a float first; the conversion is
  correctly rounded and raises \<^verbatim>\<open>OverflowError\<close> when the int is too large.
\<close>

definition float_of_int :: "int \<Rightarrow> error + pyfloat" where
  "float_of_int n =
     (case round_double (of_int n) of
        Finite y \<Rightarrow> Inr (Finite y)
      | _ \<Rightarrow> Inl OverflowError)"

text \<open>\<^verbatim>\<open>n / b\<close> with an int \<open>n\<close> and a float \<open>b\<close>.\<close>

definition int_truediv_float :: "int \<Rightarrow> pyfloat \<Rightarrow> error + pyfloat" where
  "int_truediv_float n b =
     (case float_of_int n of Inl e \<Rightarrow> Inl e | Inr a \<Rightarrow> float_truediv a b)"

text \<open>\<^verbatim>\<open>a / n\<close> with a float \<open>a\<close> and an int \<open>n\<close>.\<close>

definition float_truediv_int :: "pyfloat \<Rightarrow> int \<Rightarrow> error + pyfloat" where
  "float_truediv_int a n =
     (case float_of_int n of Inl e \<Rightarrow> Inl e | Inr b \<Rightarrow> float_truediv a b)"

text \<open>\<^verbatim>\<open>n * b\<close> with an int \<open>n\<close> and a float \<open>b\<close>.\<close>

definition int_mul_float :: "int \<Rightarrow> pyfloat \<Rightarrow> error + pyfloat" where
  "int_mul_float n b =
     (case float_of_int n of Inl e \<Rightarrow> Inl e | Inr a \<Rightarrow> Inr (float_mul a b))"

text \<open>\<^verbatim>\<open>math.ceil\<close> and \<^verbatim>\<open>int\<close> of a float raise on a NaN and on an infinity.\<close>

fun math_ceil :: "pyfloat \<Rightarrow> error + int" where
  "math_ceil (Finite x) = Inr \<lceil>x\<rceil>"
| "math_ceil NaN = Inl ValueError"
| "math_ceil PosInf = Inl OverflowError"
| "math_ceil NegInf = Inl OverflowError"

fun py_int :: "pyfloat \<Rightarrow> error + int" where
  "py_int (Finite x) = Inr (if 0 \<le> x then \<lfloor>x\<rfloor> else \<lceil>x\<rceil>)"
| "py_int NaN = Inl ValueError"
| "py_int PosInf = Inl OverflowError"
| "py_int NegInf = Inl OverflowError"

subsection \<open>Strings of ints and paths\<close>

definition digit_char :: "nat \<Rightarrow> char" where
  "digit_char d = char_of (48 + d)"

function str_nat :: "nat \<Rightarrow> string" where
  "str_nat n = (if n < 10 then [digit_char n] else str_nat (n div 10) @ [digit_char (n mod 10)])"
  by pat_completeness auto
termination
  by (relation "measure id") auto

declare str_nat.simps [simp del]

text \<open>\<^verbatim>\<open>str(n)\<close> and \<^verbatim>\<open>"{}".format(n)\<close> of an int.\<close>

definition str :: "int \<Rightarrow> string" where
  "str n = (if n < 0 then CHR ''-'' # str_nat (nat (- n)) else str_nat (nat n))"

text \<open>\<^verbatim>\<open>os.path.join(a, b)\<close> for a relative \<open>b\<close>.\<close>

definition path_join :: "string \<Rightarrow> string \<Rightarrow> string" where
  "path_join a b = (if a = [] then b else if last a = CHR ''/'' then a @ b else a @ ''/'' @ b)"

section \<open>The data of a run\<close>

subsection \<open>What libdfx hands over\<close>

text \<open>
  Modelled from the spec: the enumeration \<^verbatim>\<open>dfx.CollectorState\<close> is declared by libdfx,
  which is not part of the repository.  The source names \<^verbatim>\<open>ERROR\<close>, \<^verbatim>\<open>CHUNKREADY\<close> and
  \<^verbatim>\<open>COMPLETED\<close>; the remaining two states are the spec's.
\<close>

datatype CollectorState = UNINITIALIZED | COLLECTING | CHUNKREADY | COMPLETED | ERROR

type_synonym bytes = "nat list"

text \<open>The fields of a chunk payload that \<^verbatim>\<open>savePayload\<close> reads.\<close>

record ChunkPayload =
  valid :: bool
  start_frame :: int
  end_frame :: int
  chunk_number :: int
  number_chunks :: int
  first_chunk_start_time_s :: pyfloat
  start_time_s :: pyfloat
  end_time_s :: pyfloat
  duration_s :: pyfloat
  payload_data :: bytes
  metadata :: bytes

subsection \<open>Frames and faces\<close>

type_synonym image = "nat list"

datatype ChannelOrder = CHANNEL_ORDER_BGR

text \<open>\<^verbatim>\<open>dfx.VideoFrame(image, number, timestamp_ns, order)\<close>.\<close>

record VideoFrame =
  vf_image :: image
  vf_number :: int
  vf_timestamp_ns :: pyfloat
  vf_order :: ChannelOrder

datatype json = JBool bool | JInt int | JFloat pyfloat | JStr string

text \<open>
  One entry of the face tracking data and one of its pose points, with the keys that
  \<^verbatim>\<open>createDFXFace\<close> reads.  Every entry of the dataset is taken to have all of them.
\<close>

record jsonPoint =
  point_x :: json
  point_y :: json
  point_valid :: json
  point_estimated :: json
  point_quality :: json

record jsonFace =
  face_id :: string
  rect_x :: json
  rect_y :: json
  rect_w :: json
  rect_h :: json
  poseValid :: json
  detected :: json
  points :: "(string \<times> jsonPoint) list"

record Face =
  f_id :: string
  f_rect :: "json \<times> json \<times> json \<times> json"
  f_poseValid :: json
  f_detected :: json
  f_posePoints :: "(string \<times> jsonPoint) list"

record Frame =
  video_frame :: VideoFrame
  faces :: "Face list"
  markers :: "string list"

subsection \<open>The calls made on the collector\<close>

text \<open>
  The collector is a black box.  Every call the program makes on it is recorded, in
  program order, with the value it returned when the program looks at that value.
\<close>

datatype call =
    SetTargetFPS pyfloat
  | SetChunkDurationSeconds int
  | SetNumberChunks int
  | StartCollection
  | CreateFrame VideoFrame
  | CreateFace string
  | DefineRegions Frame
  | ExtractChannels Frame CollectorState
  | GetChunkData "ChunkPayload option"

text \<open>
  What libdfx answers.  The answer of the collector may depend on everything it has been
  asked before, so it is a function of the calls made so far.
\<close>

record libdfx =
  initializeStudyFromFile :: "string \<Rightarrow> bool"
  getCollectorState :: CollectorState
  extractChannels :: "call list \<Rightarrow> Frame \<Rightarrow> CollectorState"
  getChunkData :: "call list \<Rightarrow> ChunkPayload option"

subsection \<open>The video, the disk, the console and the window\<close>

text \<open>
  What \<^verbatim>\<open>cv2.VideoCapture(videoPath)\<close> gives: the two properties read before the loop and,
  for every frame that \<^verbatim>\<open>read()\<close> will return, the image and the value of
  \<^verbatim>\<open>CAP_PROP_POS_FRAMES\<close> after that read.  A video ends, so the frames are a list; a
  capture that failed to open has no frame and reports 0 for both properties.
\<close>

record VideoCapture =
  CAP_PROP_FPS :: pyfloat
  CAP_PROP_FRAME_COUNT :: pyfloat
  cap_frames :: "(image \<times> pyfloat) list"

datatype file_content = JsonDict "(string \<times> json) list" | Binary bytes

text \<open>The lines printed by the program.\<close>

datatype line =
    CreatedFactory
  | StudyInitializationFailed
  | CreatedStudy string
  | CollectorCreationFailed
  | CreatedCollector
  | Settings
  | GotChunk ChunkPayload
  | GotEmptyChunk
  | CompletedAtFrame int
  | CollectionFinishedCompletely
  | CollectionInterruptedOrFailed

text \<open>
  The state that the run changes: the calls made on the collector, the console, the
  directories and files on disk, the frames shown in the window, the key codes that the
  coming calls of \<^verbatim>\<open>cv2.waitKey\<close> will return, and whether the capture has been released
  and the windows destroyed.  Failures of the operating system while creating the
  directory or writing a file are outside the model.
\<close>

record world =
  calls :: "call list"
  stdout :: "line list"
  dirs :: "string set"
  files :: "string \<rightharpoonup> file_content"
  shown :: "int list"
  keys :: "int list"
  released :: bool
  windows_destroyed :: bool

text \<open>What the paths given to the program stand for.\<close>

record environment =
  dfx :: libdfx
  open_video :: "string \<Rightarrow> VideoCapture"
  load_frames :: "string \<Rightarrow> (string \<rightharpoonup> jsonFace)"

definition do_call :: "call \<Rightarrow> world \<Rightarrow> world" where
  "do_call c w = w\<lparr>calls := calls w @ [c]\<rparr>"

definition py_print :: "line \<Rightarrow> world \<Rightarrow> world" where
  "py_print l w = w\<lparr>stdout := stdout w @ [l]\<rparr>"

section \<open>The program\<close>

subsection \<open>savePayload\<close>

text \<open>Three files per chunk, named after the chunk number, in the folder \<open>output\<close>.\<close>

definition savePayload :: "ChunkPayload \<Rightarrow> string \<Rightarrow> world \<Rightarrow> world" where
  "savePayload chunkPayload output w =
     (let props =
            [(''valid'', JBool (valid chunkPayload)),
             (''start_frame'', JInt (start_frame chunkPayload)),
             (''end_frame'', JInt (end_frame chunkPayload)),
             (''chunk_number'', JInt (chunk_number chunkPayload)),
             (''number_chunks'', JInt (number_chunks chunkPayload)),
             (''first_chunk_start_time_s'', JFloat (first_chunk_start_time_s chunkPayload)),
             (''start_time_s'', JFloat (start_time_s chunkPayload)),
             (''end_time_s'', JFloat (end_time_s chunkPayload)),
             (''duration_s'', JFloat (duration_s chunkPayload))];
          n = str (chunk_number chunkPayload);
          fs1 = (files w)(path_join output (''properties'' @ n @ ''.json'') \<mapsto> JsonDict props);
          fs2 = fs1(path_join output (''payload'' @ n @ ''.bin'') \<mapsto>
                  Binary (payload_data chunkPayload));
          fs3 = fs2(path_join output (''metadata'' @ n @ ''.bin'') \<mapsto>
                  Binary (metadata chunkPayload))
      in w\<lparr>files := fs3\<rparr>)"

subsection \<open>doExtraction\<close>

text \<open>The local variables of \<^verbatim>\<open>doExtraction\<close> that the loop reads and never assigns.\<close>

record locals =
  factory :: libdfx
  videofaces :: "string \<rightharpoonup> jsonFace"
  durationOneFrame_ns :: pyfloat
  "output" :: "string option"

text \<open>The nested function \<^verbatim>\<open>createDFXFace\<close>: one call of the collector, then setters of the face.\<close>

definition createDFXFace :: "jsonFace \<Rightarrow> world \<Rightarrow> Face \<times> world" where
  "createDFXFace jsonFace w =
     (\<lparr>f_id = face_id jsonFace,
       f_rect = (rect_x jsonFace, rect_y jsonFace, rect_w jsonFace, rect_h jsonFace),
       f_poseValid = poseValid jsonFace,
       f_detected = detected jsonFace,
       f_posePoints = points jsonFace\<rparr>,
      do_call (CreateFace (face_id jsonFace)) w)"

text \<open>
  The block that asks the collector for a chunk, saves it when a folder was given, and
  prints what it got.  The source has it twice, word for word: after the end of the video
  (lines 149 to 156) and after a submit that answered \<^verbatim>\<open>CHUNKREADY\<close> or \<^verbatim>\<open>COMPLETED\<close>
  (lines 183 to 190).
\<close>

definition grab_chunk :: "locals \<Rightarrow> world \<Rightarrow> world" where
  "grab_chunk v w =
     (let chunkData = getChunkData (factory v) (calls w);
          w1 = do_call (GetChunkData chunkData) w
      in case chunkData of
           Some chunkPayload \<Rightarrow>
             py_print (GotChunk chunkPayload)
               (case output v of
                  Some folder \<Rightarrow> savePayload chunkPayload folder w1
                | None \<Rightarrow> w1)
         | None \<Rightarrow> py_print GotEmptyChunk w1)"

text \<open>\<^verbatim>\<open>cv2.waitKey(1)\<close>: the next key code, or -1 when no key was pressed.\<close>

definition waitKey :: "world \<Rightarrow> int \<times> world" where
  "waitKey w = (case keys w of [] \<Rightarrow> (- 1, w) | k # ks \<Rightarrow> (k, w\<lparr>keys := ks\<rparr>))"

text \<open>How one pass through the body of \<^verbatim>\<open>while (True)\<close> ends.\<close>

datatype step = Continue world | Break bool world | Raise error world

text \<open>
  Lines 197 to 223: every 10th frame is drawn and shown, and the key \<^verbatim>\<open>q\<close> ends the loop
  with \<^verbatim>\<open>success = False\<close>.  \<^verbatim>\<open>& 0xFF\<close> on a Python int is the remainder modulo 256.
\<close>

definition render :: "int \<Rightarrow> world \<Rightarrow> step" where
  "render frameNumber w =
     (if frameNumber mod 10 = 0 then
        (case waitKey (w\<lparr>shown := shown w @ [frameNumber]\<rparr>) of
           (k, w1) \<Rightarrow> if k mod 256 = 113 then Break False w1 else Continue w1)
      else Continue w)"

text \<open>
  Lines 160 to 175: the frame number is read from the capture, the video frame gets its
  timestamp, the collector makes a frame of it, the face of that frame number is looked
  up and added, and frame 1000 gets its marker.  A frame number without an entry in the
  face tracking data raises \<^verbatim>\<open>KeyError\<close>.
\<close>

definition make_frame :: "locals \<Rightarrow> image \<times> pyfloat \<Rightarrow> world \<Rightarrow> (error + Frame) \<times> world" where
  "make_frame v fr w =
     (case py_int (snd fr) of
        Inl e \<Rightarrow> (Inl e, w)
      | Inr frameNumber \<Rightarrow>
     (case int_mul_float frameNumber (durationOneFrame_ns v) of
        Inl e \<Rightarrow> (Inl e, w)
      | Inr timestamp \<Rightarrow>
     (let videoFrame = \<lparr>vf_image = fst fr, vf_number = frameNumber,
                         vf_timestamp_ns = timestamp, vf_order = CHANNEL_ORDER_BGR\<rparr>;
          w1 = do_call (CreateFrame videoFrame) w
      in case videofaces v (str frameNumber) of
           None \<Rightarrow> (Inl (KeyError (str frameNumber)), w1)
         | Some jsonFace \<Rightarrow>
     (case createDFXFace jsonFace w1 of
        (face, w2) \<Rightarrow>
          (Inr \<lparr>video_frame = videoFrame, faces = [face],
                markers = (if frameNumber = 1000 then [''This is the 1000th frame''] else [])\<rparr>,
           w2)))))"

text \<open>Lines 177 to 179: the frame is handed to the collector, which answers with its state.\<close>

definition submit :: "locals \<Rightarrow> Frame \<Rightarrow> world \<Rightarrow> CollectorState \<times> world" where
  "submit v frame w =
     (let w1 = do_call (DefineRegions frame) w;
          result = extractChannels (factory v) (calls w1) frame
      in (result, do_call (ExtractChannels frame result) w1))"

text \<open>Lines 160 to 223: the body of the loop for a frame that \<^verbatim>\<open>read()\<close> returned.\<close>

definition iteration :: "locals \<Rightarrow> image \<times> pyfloat \<Rightarrow> world \<Rightarrow> step" where
  "iteration v fr w =
     (case make_frame v fr w of
        (Inl e, w1) \<Rightarrow> Raise e w1
      | (Inr frame, w1) \<Rightarrow>
     (case submit v frame w1 of
        (result, w2) \<Rightarrow>
          let frameNumber = vf_number (video_frame frame)
          in if result = CHUNKREADY \<or> result = COMPLETED then
               (let w3 = grab_chunk v w2
                in if result = COMPLETED
                   then Break True (py_print (CompletedAtFrame frameNumber) w3)
                   else render frameNumber w3)
             else render frameNumber w2))"

text \<open>
  Lines 144 to 223: \<^verbatim>\<open>while (True)\<close> over the frames that the capture still holds.  When
  \<^verbatim>\<open>read()\<close> has nothing left, the last chunk is grabbed and the loop ends with
  \<^verbatim>\<open>success = True\<close>.  The result is the value of \<^verbatim>\<open>success\<close> at the end of the loop, or
  the exception that left it.
\<close>

fun loop :: "locals \<Rightarrow> (image \<times> pyfloat) list \<Rightarrow> world \<Rightarrow> (error + bool) \<times> world" where
  "loop v [] w = (Inr True, grab_chunk v w)"
| "loop v (fr # rest) w =
     (case iteration v fr w of
        Continue w1 \<Rightarrow> loop v rest w1
      | Break success w1 \<Rightarrow> (Inr success, w1)
      | Raise e w1 \<Rightarrow> (Inl e, w1))"

text \<open>Lines 132 to 136: the output folder is created when one is given and it is not there.\<close>

definition make_output_folder :: "string option \<Rightarrow> world \<Rightarrow> world" where
  "make_output_folder out w =
     (case out of
        None \<Rightarrow> w
      | Some folder \<Rightarrow>
          if folder \<in> dirs w \<or> folder \<in> dom (files w) then w
          else w\<lparr>dirs := insert folder (dirs w)\<rparr>)"

text \<open>
  Lines 68 to 139: everything before the loop.  The study is initialised and the collector
  created (either failure ends the program with \<^verbatim>\<open>sys.exit(1)\<close>), the face tracking data
  is loaded, the video is opened, the duration of one frame and the number of chunks are
  computed, the collector is configured and the collection is started.
\<close>

definition start ::
  "environment \<Rightarrow> string \<Rightarrow> string \<Rightarrow> string \<Rightarrow> string option \<Rightarrow> world \<Rightarrow>
     (error + locals \<times> VideoCapture) \<times> world"
where
  "start env videoPath facePath studyPath out w0 =
     (let w1 = py_print CreatedFactory w0
      in if \<not> initializeStudyFromFile (dfx env) studyPath
         then (Inl (SystemExit 1), py_print StudyInitializationFailed w1)
         else
     (let w2 = py_print (CreatedStudy studyPath) w1
      in if getCollectorState (dfx env) = ERROR
         then (Inl (SystemExit 1), py_print CollectorCreationFailed w2)
         else
     (let w3 = py_print CreatedCollector w2;
          faces_by_frame = load_frames env facePath;
          videocap = open_video env videoPath;
          targetFPS = CAP_PROP_FPS videocap
      in case float_truediv (Finite 1000000000) targetFPS of
           Inl e \<Rightarrow> (Inl e, w3)
         | Inr duration \<Rightarrow>
     (let chunkDuration_s = 5
      in case py_int (CAP_PROP_FRAME_COUNT videocap) of
           Inl e \<Rightarrow> (Inl e, w3)
         | Inr videoDuration_frames \<Rightarrow>
     (case int_truediv_float videoDuration_frames targetFPS of
           Inl e \<Rightarrow> (Inl e, w3)
         | Inr videoDuration_s \<Rightarrow>
     (case float_truediv_int videoDuration_s chunkDuration_s of
           Inl e \<Rightarrow> (Inl e, w3)
         | Inr chunks \<Rightarrow>
     (case math_ceil chunks of
           Inl e \<Rightarrow> (Inl e, w3)
         | Inr numberChunks \<Rightarrow>
     (let w4 = do_call (SetTargetFPS targetFPS) w3;
          w5 = do_call (SetChunkDurationSeconds chunkDuration_s) w4;
          w6 = do_call (SetNumberChunks numberChunks) w5;
          w7 = py_print Settings w6;
          w8 = make_output_folder out w7;
          w9 = do_call StartCollection w8
      in (Inr (\<lparr>factory = dfx env, videofaces = faces_by_frame,
                 durationOneFrame_ns = duration, output = out\<rparr>, videocap),
          w9)))))))))"

text \<open>Lines 225 to 232: the closing message, then the capture and the windows are let go.\<close>

definition finish :: "bool \<Rightarrow> world \<Rightarrow> world" where
  "finish success w =
     (py_print (if success then CollectionFinishedCompletely else CollectionInterruptedOrFailed) w)
       \<lparr>released := True, windows_destroyed := True\<rparr>"

text \<open>
  The whole function.  It returns nothing; the result is either the exception that left
  it or \<open>()\<close>, with the world as the run left it.
\<close>

definition doExtraction ::
  "environment \<Rightarrow> string \<Rightarrow> string \<Rightarrow> string \<Rightarrow> string option \<Rightarrow> world \<Rightarrow> (error + unit) \<times> world"
where
  "doExtraction env videoPath facePath studyPath out w0 =
     (case start env videoPath facePath studyPath out w0 of
        (Inl e, w) \<Rightarrow> (Inl e, w)
      | (Inr (v, videocap), w) \<Rightarrow>
     (case loop v (cap_frames videocap) w of
        (Inl e, w1) \<Rightarrow> (Inl e, w1)
      | (Inr success, w1) \<Rightarrow> (Inr (), finish success w1)))"

section \<open>Vocabulary for the properties\<close>

text \<open>The world in which a pass through the loop body ends.\<close>

fun step_world :: "step \<Rightarrow> world" where
  "step_world (Continue w) = w"
| "step_world (Break success w) = w"
| "step_world (Raise e w) = w"

text \<open>The frames handed to \<^verbatim>\<open>extractChannels\<close>, and the answers, in the order of the calls.\<close>

fun submissions :: "call list \<Rightarrow> (Frame \<times> CollectorState) list" where
  "submissions [] = []"
| "submissions (ExtractChannels f r # cs) = (f, r) # submissions cs"
| "submissions (c # cs) = submissions cs"

definition submitted :: "call list \<Rightarrow> Frame list" where
  "submitted cs = map fst (submissions cs)"

text \<open>The frame number and the timestamp that a frame carries.\<close>

definition frame_number :: "Frame \<Rightarrow> int" where
  "frame_number f = vf_number (video_frame f)"

definition frame_timestamp :: "Frame \<Rightarrow> pyfloat" where
  "frame_timestamp f = vf_timestamp_ns (video_frame f)"

text \<open>
  The loop gets through a list of frames when every one of them leads back to
  \<^verbatim>\<open>while (True)\<close>: no exception, no \<^verbatim>\<open>COMPLETED\<close>, no key \<^verbatim>\<open>q\<close>.  The result is the
  world after the last of them.
\<close>

fun passes :: "locals \<Rightarrow> (image \<times> pyfloat) list \<Rightarrow> world \<Rightarrow> world option" where
  "passes v [] w = Some w"
| "passes v (fr # rest) w =
     (case iteration v fr w of
        Continue w1 \<Rightarrow> passes v rest w1
      | Break success w1 \<Rightarrow> None
      | Raise e w1 \<Rightarrow> None)"

text \<open>The calls that the loop makes on the collector.\<close>

fun loop_call :: "call \<Rightarrow> bool" where
  "loop_call (CreateFrame vf) = True"
| "loop_call (CreateFace i) = True"
| "loop_call (DefineRegions f) = True"
| "loop_call (ExtractChannels f r) = True"
| "loop_call (GetChunkData c) = True"
| "loop_call c = False"

text \<open>How the loop fills in a frame: the marker, and the timestamp from the frame number.\<close>

definition marker_rule :: "Frame \<Rightarrow> bool" where
  "marker_rule f \<longleftrightarrow>
     markers f = (if frame_number f = 1000 then [''This is the 1000th frame''] else [])"

definition timestamp_rule :: "pyfloat \<Rightarrow> Frame \<Rightarrow> bool" where
  "timestamp_rule duration f \<longleftrightarrow>
     int_mul_float (frame_number f) duration = Inr (frame_timestamp f)"

definition frame_rule :: "locals \<Rightarrow> Frame \<Rightarrow> bool" where
  "frame_rule v f \<longleftrightarrow> marker_rule f \<and> timestamp_rule (durationOneFrame_ns v) f"


section \<open>Small runs\<close>

text \<open>
  A video whose frames carry the given numbers, face tracking data for the frame numbers
  listed, a collector whose answer to a frame is looked up by the frame number
  (\<^verbatim>\<open>COLLECTING\<close> when it is not listed) and which always has the same chunk ready, and a
  world with nothing on disk and the given keys waiting.
\<close>

definition ex_face :: jsonFace where
  "ex_face = \<lparr>face_id = ''1'', rect_x = JInt 0, rect_y = JInt 0, rect_w = JInt 64,
     rect_h = JInt 64, poseValid = JBool True, detected = JBool True, points = []\<rparr>"

definition ex_payload :: ChunkPayload where
  "ex_payload = \<lparr>valid = True, start_frame = 1, end_frame = 2, chunk_number = 0,
     number_chunks = 1, first_chunk_start_time_s = Finite 0, start_time_s = Finite 0,
     end_time_s = Finite 2, duration_s = Finite 2, payload_data = [1, 2], metadata = [3]\<rparr>"

fun ex_answer :: "(int \<times> CollectorState) list \<Rightarrow> int \<Rightarrow> CollectorState" where
  "ex_answer [] n = COLLECTING"
| "ex_answer ((k, r) # rest) n = (if n = k then r else ex_answer rest n)"

fun ex_frames :: "int list \<Rightarrow> (image \<times> pyfloat) list" where
  "ex_frames [] = []"
| "ex_frames (n # ns) = ([], Finite (of_int n)) # ex_frames ns"

fun ex_faces :: "int list \<Rightarrow> (string \<rightharpoonup> jsonFace)" where
  "ex_faces [] = Map.empty"
| "ex_faces (n # ns) = (ex_faces ns)(str n \<mapsto> ex_face)"

fun ex_dfx_answer :: "(int \<times> CollectorState) list \<Rightarrow> call list \<Rightarrow> Frame \<Rightarrow> CollectorState" where
  "ex_dfx_answer answers cs frame = ex_answer answers (vf_number (video_frame frame))"

fun ex_true :: "string \<Rightarrow> bool" where
  "ex_true path = True"

fun ex_chunk :: "call list \<Rightarrow> ChunkPayload option" where
  "ex_chunk cs = Some ex_payload"

definition ex_dfx :: "(int \<times> CollectorState) list \<Rightarrow> libdfx" where
  "ex_dfx answers =
     \<lparr>initializeStudyFromFile = ex_true, getCollectorState = COLLECTING,
      extractChannels = ex_dfx_answer answers, getChunkData = ex_chunk\<rparr>"

fun ex_video :: "rat \<Rightarrow> int list \<Rightarrow> string \<Rightarrow> VideoCapture" where
  "ex_video fps numbers path =
     \<lparr>CAP_PROP_FPS = Finite fps, CAP_PROP_FRAME_COUNT = Finite (of_nat (length numbers)),
      cap_frames = ex_frames numbers\<rparr>"

fun ex_load :: "int list \<Rightarrow> string \<Rightarrow> (string \<rightharpoonup> jsonFace)" where
  "ex_load annotated path = ex_faces annotated"

definition ex_env :: "(int \<times> CollectorState) list \<Rightarrow> rat \<Rightarrow> int list \<Rightarrow> int list \<Rightarrow> environment" where
  "ex_env answers fps numbers annotated =
     \<lparr>dfx = ex_dfx answers, open_video = ex_video fps numbers, load_frames = ex_load annotated\<rparr>"

definition ex_world :: "int list \<Rightarrow> world" where
  "ex_world ks = \<lparr>calls = [], stdout = [], dirs = {}, files = Map.empty, shown = [],
     keys = ks, released = False, windows_destroyed = False\<rparr>"

definition ex_locals :: "(int \<times> CollectorState) list \<Rightarrow> int list \<Rightarrow> string option \<Rightarrow> locals" where
  "ex_locals answers annotated out =
     \<lparr>factory = ex_dfx answers, videofaces = ex_faces annotated,
      durationOneFrame_ns = Finite 1000000000, output = out\<rparr>"

text \<open>The frame that the loop makes of a frame numbered 1, at one frame per second.\<close>

definition ex_frame_1 :: Frame where
  "ex_frame_1 =
     \<lparr>video_frame = \<lparr>vf_image = [], vf_number = 1, vf_timestamp_ns = Finite 1000000000,
                       vf_order = CHANNEL_ORDER_BGR\<rparr>,
      faces = [\<lparr>f_id = ''1'', f_rect = (JInt 0, JInt 0, JInt 64, JInt 64),
                f_poseValid = JBool True, f_detected = JBool True, f_posePoints = []\<rparr>],
      markers = []\<rparr>"

definition ex_run ::
  "(int \<times> CollectorState) list \<Rightarrow> rat \<Rightarrow> int list \<Rightarrow> int list \<Rightarrow> string option \<Rightarrow> int list \<Rightarrow>
     (error + unit) \<times> world"
where
  "ex_run answers fps numbers annotated out ks =
     doExtraction (ex_env answers fps numbers annotated) ''video.mp4'' ''faces.json''
       ''study.dat'' out (ex_world ks)"

section \<open>Facts about the float arithmetic\<close>

lemma pow2_powi: "pow2 k = 2 powi k"
proof (cases "0 \<le> k")
  case True
  then show ?thesis by (simp add: pow2_def power_int_def)
next
  case False
  then show ?thesis
    by (simp add: pow2_def power_int_def power_one_over[symmetric] inverse_eq_divide)
qed

lemma pow2_pos [simp]: "0 < pow2 k"
  by (simp add: pow2_powi)

lemma pow2_add: "pow2 (a + b) = pow2 a * pow2 b"
  by (simp add: pow2_powi power_int_add)

lemma pow2_mono: "a \<le> b \<Longrightarrow> pow2 a \<le> pow2 b"
  by (simp add: pow2_powi power_int_increasing)

lemma pow2_strict_mono: "a < b \<Longrightarrow> pow2 a < pow2 b"
  by (simp add: pow2_powi power_int_strict_increasing)

lemma pow2_less_cancel: "pow2 a < pow2 b \<Longrightarrow> a < b"
  using pow2_mono[of b a] by (cases "a < b") auto

lemma pow2_nat: "0 \<le> k \<Longrightarrow> pow2 k = 2 ^ nat k"
  by (simp add: pow2_def)

lemma pow2_neg: "pow2 (- k) = 1 / pow2 k"
  by (simp add: pow2_powi power_int_minus_divide)

lemma ilog2_bounds:
  assumes "0 < q"
  shows "pow2 (ilog2 q) \<le> q" and "q < pow2 (ilog2 q + 1)"
proof -
  have "pow2 (ilog2 q) \<le> q \<and> q < pow2 (ilog2 q + 1)"
  proof (cases "1 \<le> q")
    case True
    define n where "n = \<lfloor>q\<rfloor>"
    have n1: "1 \<le> n" using True by (simp add: n_def le_floor_iff)
    then have n0: "0 < n" by simp
    have b1: "1 \<le> bitlen n" using n0 by (simp add: bitlen_alt_def)
    have lo: "2 ^ nat (bitlen n - 1) \<le> n" and hi: "n < 2 ^ nat (bitlen n)"
      using bitlen_bounds[OF n0] by simp_all
    have "(2::rat) ^ nat (bitlen n - 1) \<le> of_int n"
      using lo by simp
    also have "\<dots> \<le> q" unfolding n_def using floor_correct[of q] by simp
    finally have A: "pow2 (bitlen n - 1) \<le> q" using b1 by (simp add: pow2_nat)
    have "n + 1 \<le> 2 ^ nat (bitlen n)" using hi by simp
    then have "(of_int (n + 1)::rat) \<le> 2 ^ nat (bitlen n)"
      by (simp only: of_int_le_numeral_power_cancel_iff)
    moreover have "q < of_int (n + 1)" unfolding n_def using floor_correct[of q] by simp
    ultimately have "q < 2 ^ nat (bitlen n)" by linarith
    then have B: "q < pow2 (bitlen n - 1 + 1)" using b1 by (simp add: pow2_nat)
    from A B True show ?thesis by (simp add: ilog2_def n_def)
  next
    case False
    define r where "r = 1 / q"
    have r1: "1 < r" using False assms by (simp add: r_def)
    define n where "n = \<lceil>r\<rceil> - 1"
    have n1: "1 \<le> n" using r1 by (simp add: n_def less_ceiling_iff)
    then have n0: "0 < n" by simp
    have nr: "of_int n < r" unfolding n_def using ceiling_correct[of r] by simp
    have rn: "r \<le> of_int (n + 1)" unfolding n_def using ceiling_correct[of r] by simp
    have b1: "1 \<le> bitlen n" using n0 by (simp add: bitlen_alt_def)
    have lo: "2 ^ nat (bitlen n - 1) \<le> n" and hi: "n < 2 ^ nat (bitlen n)"
      using bitlen_bounds[OF n0] by simp_all
    have "n + 1 \<le> 2 ^ nat (bitlen n)" using hi by simp
    then have "(of_int (n + 1)::rat) \<le> 2 ^ nat (bitlen n)"
      by (simp only: of_int_le_numeral_power_cancel_iff)
    with rn have "r \<le> 2 ^ nat (bitlen n)" by linarith
    then have "r \<le> pow2 (bitlen n)" using b1 by (simp add: pow2_nat)
    then have "1 / pow2 (bitlen n) \<le> q"
      using assms by (simp add: r_def field_simps)
    then have A: "pow2 (- bitlen n) \<le> q" by (simp only: pow2_neg)
    have "(2::rat) ^ nat (bitlen n - 1) \<le> of_int n"
      using lo by simp
    with nr have "2 ^ nat (bitlen n - 1) < r" by linarith
    then have "pow2 (bitlen n - 1) < r" using b1 by (simp add: pow2_nat)
    then have "q < 1 / pow2 (bitlen n - 1)"
      using assms by (simp add: r_def field_simps)
    moreover have "pow2 (- bitlen n + 1) = 1 / pow2 (bitlen n - 1)"
      using pow2_neg[of "bitlen n - 1"] by (simp add: algebra_simps)
    ultimately have B: "q < pow2 (- bitlen n + 1)" by simp
    from A B False show ?thesis by (simp add: ilog2_def n_def r_def)
  qed
  then show "pow2 (ilog2 q) \<le> q" and "q < pow2 (ilog2 q + 1)" by simp_all
qed

lemma ilog2_unique:
  assumes "pow2 k \<le> q" and "q < pow2 (k + 1)"
  shows "ilog2 q = k"
proof -
  have q: "0 < q" using assms(1) pow2_pos[of k] by linarith
  have "pow2 (ilog2 q) < pow2 (k + 1)" using ilog2_bounds(1)[OF q] assms(2) by linarith
  then have "ilog2 q < k + 1" by (rule pow2_less_cancel)
  moreover have "pow2 k < pow2 (ilog2 q + 1)" using ilog2_bounds(2)[OF q] assms(1) by linarith
  then have "k < ilog2 q + 1" by (rule pow2_less_cancel)
  ultimately show ?thesis by simp
qed

lemma round_half_even_of_int [simp]: "round_half_even (of_int n) = n"
  by (simp add: round_half_even_def)

lemma round_half_even_error: "\<bar>of_int (round_half_even x) - x\<bar> \<le> 1 / 2"
proof -
  have "of_int \<lfloor>x\<rfloor> \<le> x" and "x < of_int \<lfloor>x\<rfloor> + 1" by linarith+
  then show ?thesis
    by (auto simp: round_half_even_def Let_def)
qed

lemma pow2_neq0 [simp]: "pow2 k \<noteq> 0"
  using pow2_pos[of k] by linarith

lemma pow2_nonneg [simp]: "0 \<le> pow2 k"
  using pow2_pos[of k] by linarith

lemma round_double_eq:
  assumes "x \<noteq> 0" and "ulp_exp x = e" and "round_half_even (x / pow2 e) = m"
    and "\<bar>of_int m * pow2 e\<bar> < 2 ^ 1024"
  shows "round_double x = Finite (of_int m * pow2 e)"
  using assms by (auto simp: round_double_def Let_def)

lemma ilog2_ge:
  assumes "pow2 k \<le> q"
  shows "k \<le> ilog2 q"
proof -
  have q: "0 < q" using assms pow2_pos[of k] by linarith
  have "pow2 k < pow2 (ilog2 q + 1)" using ilog2_bounds(2)[OF q] assms by linarith
  then have "k < ilog2 q + 1" by (rule pow2_less_cancel)
  then show ?thesis by simp
qed

lemma ilog2_less:
  assumes "0 < q" and "q < pow2 k"
  shows "ilog2 q < k"
proof -
  have "pow2 (ilog2 q) < pow2 k" using ilog2_bounds(1)[OF assms(1)] assms(2) by linarith
  then show ?thesis by (rule pow2_less_cancel)
qed

lemma round_double_of_int:
  assumes "\<bar>n\<bar> < 2 ^ 53"
  shows "round_double (of_int n) = Finite (of_int n)"
proof (cases "n = 0")
  case True
  then show ?thesis by (simp add: round_double_def)
next
  case False
  define x :: rat where "x = of_int n"
  define E where "E = ilog2 \<bar>x\<bar>"
  have x1: "1 \<le> \<bar>x\<bar>" using False by (simp add: x_def flip: of_int_abs)
  have "\<bar>x\<bar> < 2 ^ 53" using assms by (simp add: x_def flip: of_int_abs)
  then have xlt: "\<bar>x\<bar> < pow2 53" by (simp add: pow2_def)
  have E0: "0 \<le> E" using ilog2_ge[of 0 "\<bar>x\<bar>"] x1 by (simp add: E_def pow2_def)
  have "0 < \<bar>x\<bar>" using x1 by linarith
  then have "ilog2 \<bar>x\<bar> < 53" using xlt by (rule ilog2_less)
  then have E52: "E \<le> 52" by (simp add: E_def)
  have e: "ulp_exp x = E - 52" using E0 by (simp add: ulp_exp_def E_def)
  define k where "k = nat (52 - E)"
  have pk: "pow2 (E - 52) = 1 / 2 ^ k"
    using pow2_neg[of "52 - E"] E52 by (simp add: k_def pow2_nat)
  have z: "x / pow2 (E - 52) = of_int (n * 2 ^ k)" by (simp add: pk x_def)
  have m: "round_half_even (x / pow2 (E - 52)) = n * 2 ^ k"
    unfolding z by (rule round_half_even_of_int)
  have y: "of_int (n * 2 ^ k) * pow2 (E - 52) = x" by (simp add: pk x_def)
  have "\<bar>x\<bar> < 2 ^ 1024" using \<open>\<bar>x\<bar> < 2 ^ 53\<close> by simp
  then have big: "\<bar>of_int (n * 2 ^ k) * pow2 (E - 52)\<bar> < 2 ^ 1024" by (simp only: y)
  have "x \<noteq> 0" using x1 by auto
  then have "round_double x = Finite (of_int (n * 2 ^ k) * pow2 (E - 52))"
    using e m big by (rule round_double_eq)
  then have "round_double x = Finite x" by (simp only: y)
  then show ?thesis by (simp only: x_def)
qed

lemma ulp_exp_normal:
  assumes "pow2 (- 1022) \<le> \<bar>x\<bar>"
  shows "ulp_exp x = ilog2 \<bar>x\<bar> - 52"
  using ilog2_ge[OF assms] by (simp add: ulp_exp_def)

lemma round_double_error:
  assumes lo: "pow2 (- 1022) \<le> \<bar>x\<bar>" and hi: "\<bar>x\<bar> < pow2 1023"
  shows "\<exists>y. round_double x = Finite y \<and> \<bar>y - x\<bar> \<le> \<bar>x\<bar> / 2 ^ 53"
proof -
  define e where "e = ilog2 \<bar>x\<bar> - 52"
  define y where "y = of_int (round_half_even (x / pow2 e)) * pow2 e"
  have "0 < \<bar>x\<bar>" using lo pow2_pos[of "- 1022"] by linarith
  then have x0: "x \<noteq> 0" by simp
  then have ax: "0 < \<bar>x\<bar>" by simp
  have ue: "ulp_exp x = e" using ulp_exp_normal[OF lo] by (simp add: e_def)
  have pe: "pow2 e * 2 ^ 52 \<le> \<bar>x\<bar>"
  proof -
    have "pow2 (e + 52) = pow2 e * pow2 52" by (rule pow2_add)
    moreover have "pow2 (e + 52) \<le> \<bar>x\<bar>" using ilog2_bounds(1)[OF ax] by (simp add: e_def)
    ultimately show ?thesis by (simp add: pow2_def)
  qed
  have "y - x = (of_int (round_half_even (x / pow2 e)) - x / pow2 e) * pow2 e"
    by (simp add: y_def left_diff_distrib)
  moreover have "\<bar>pow2 e\<bar> = pow2 e" using pow2_pos[of e] by linarith
  ultimately have "\<bar>y - x\<bar> = \<bar>of_int (round_half_even (x / pow2 e)) - x / pow2 e\<bar> * pow2 e"
    by (simp only: abs_mult)
  also have "\<dots> \<le> (1 / 2) * pow2 e"
    using round_half_even_error[of "x / pow2 e"] pow2_pos[of e]
    by (intro mult_right_mono) simp_all
  finally have err1: "\<bar>y - x\<bar> \<le> pow2 e / 2" by simp
  have err: "\<bar>y - x\<bar> \<le> \<bar>x\<bar> / 2 ^ 53"
  proof -
    have "pow2 e / 2 \<le> \<bar>x\<bar> / 2 ^ 52 / 2" using pe by (simp add: field_simps)
    also have "\<dots> = \<bar>x\<bar> / 2 ^ 53" by simp
    finally show ?thesis using err1 by linarith
  qed
  have "\<bar>y\<bar> \<le> \<bar>x\<bar> + \<bar>x\<bar> / 2 ^ 53" using err by linarith
  also have "\<dots> \<le> \<bar>x\<bar> + \<bar>x\<bar>" by (simp add: field_simps)
  also have "\<dots> < 2 * pow2 1023" using hi by simp
  also have "\<dots> = 2 ^ 1024" by (simp add: pow2_def)
  finally have fin: "\<bar>y\<bar> < 2 ^ 1024" .
  have "round_double x = Finite (of_int (round_half_even (x / pow2 e)) * pow2 e)"
    using x0 ue refl fin[unfolded y_def] by (rule round_double_eq)
  then have "round_double x = Finite y" by (simp only: y_def)
  with err show ?thesis by blast
qed

lemma int_mul_float_small:
  assumes "\<bar>n\<bar> < 2 ^ 53"
  shows "int_mul_float n (Finite q) = Inr (round_double (of_int n * q))"
  by (simp add: int_mul_float_def float_of_int_def round_double_of_int[OF assms])

lemma timestamp_error:
  assumes q: "pow2 (- 1022) \<le> q" "q < pow2 971" and i: "0 \<le> i" "i < 2 ^ 52"
  shows "\<exists>y. int_mul_float i (Finite q) = Inr (Finite y)
             \<and> \<bar>y - of_int i * q\<bar> \<le> of_int i * q / 2 ^ 53"
proof -
  have small: "\<bar>i\<bar> < 2 ^ 53" using i by simp
  have q0: "0 < q" using q(1) pow2_pos[of "- 1022"] by linarith
  show ?thesis
  proof (cases "i = 0")
    case True
    then show ?thesis by (simp add: int_mul_float_small round_double_def)
  next
    case False
    define x where "x = of_int i * q"
    have i1: "(1::rat) \<le> of_int i" using False i(1) by simp
    have "1 * q \<le> of_int i * q" using i1 q0 by (intro mult_right_mono) simp_all
    then have xq: "q \<le> x" by (simp add: x_def)
    then have x0: "0 < x" using q0 by linarith
    have "of_int i < (2::rat) ^ 52" using i(2) by simp
    then have "of_int i * q < 2 ^ 52 * q" using q0 by (intro mult_strict_right_mono) simp_all
    also have "\<dots> \<le> 2 ^ 52 * pow2 971" using q(2) by simp
    also have "\<dots> = pow2 52 * pow2 971" by (simp add: pow2_def)
    also have "\<dots> = pow2 1023" using pow2_add[of 52 971] by simp
    finally have xhi: "x < pow2 1023" by (simp add: x_def)
    have lo: "pow2 (- 1022) \<le> \<bar>x\<bar>" using q(1) xq x0 by linarith
    have hi: "\<bar>x\<bar> < pow2 1023" using xhi x0 by linarith
    obtain y where "round_double x = Finite y" "\<bar>y - x\<bar> \<le> \<bar>x\<bar> / 2 ^ 53"
      using round_double_error[OF lo hi] by blast
    moreover have "\<bar>x\<bar> = x" using x0 by linarith
    ultimately show ?thesis
      using int_mul_float_small[OF small, of q] by (simp add: x_def)
  qed
qed

lemma timestamps_increase:
  assumes q: "pow2 (- 1022) \<le> q" "q < pow2 971" and ij: "0 \<le> i" "i < j" "j < 2 ^ 52"
    and a: "int_mul_float i (Finite q) = Inr (Finite a)"
    and b: "int_mul_float j (Finite q) = Inr (Finite b)"
  shows "a < b"
proof -
  define u where "u = of_int i * q"
  define v where "v = of_int j * q"
  define eu where "eu = u / 2 ^ 53"
  define ev where "ev = v / 2 ^ 53"
  have q0: "0 < q" using q(1) pow2_pos[of "- 1022"] by linarith
  have ea: "\<bar>a - u\<bar> \<le> eu"
    using timestamp_error[OF q ij(1)] ij a by (auto simp: u_def eu_def)
  have eb: "\<bar>b - v\<bar> \<le> ev"
    using timestamp_error[OF q, of j] ij b by (auto simp: v_def ev_def)
  have "1 \<le> j - i" using ij(2) by simp
  then have "(1::rat) \<le> of_int (j - i)" by (simp only: of_int_1_le_iff)
  then have "1 * q \<le> of_int (j - i) * q" using q0 by (intro mult_right_mono) simp_all
  then have d1: "q \<le> v - u" by (simp add: left_diff_distrib u_def v_def)
  have "i + j < 2 ^ 53" using ij by simp
  then have "of_int (i + j) < (2::rat) ^ 53" by (simp only: of_int_less_numeral_power_cancel_iff)
  then have "of_int (i + j) * q < 2 ^ 53 * q" using q0 by (intro mult_strict_right_mono) simp_all
  then have "(u + v) / 2 ^ 53 < q" by (simp add: u_def v_def field_simps)
  then have d2: "eu + ev < q" by (simp only: eu_def ev_def add_divide_distrib)
  from ea eb d1 d2 show ?thesis by linarith
qed

lemma timestamps_step:
  assumes q: "pow2 (- 1022) \<le> q" "q < pow2 971" and i: "0 \<le> i" "i + 1 < 2 ^ 52"
    and a: "int_mul_float i (Finite q) = Inr (Finite a)"
    and b: "int_mul_float (i + 1) (Finite q) = Inr (Finite b)"
  shows "\<bar>b - a - q\<bar> \<le> (2 * of_int i + 1) * q / 2 ^ 53"
proof -
  define u where "u = of_int i * q"
  define v where "v = of_int (i + 1) * q"
  define eu where "eu = u / 2 ^ 53"
  define ev where "ev = v / 2 ^ 53"
  have ea: "\<bar>a - u\<bar> \<le> eu"
    using timestamp_error[OF q i(1)] i a by (auto simp: u_def eu_def)
  have eb: "\<bar>b - v\<bar> \<le> ev"
    using timestamp_error[OF q, of "i + 1"] i b by (auto simp: v_def ev_def)
  have vu: "v = u + q" by (simp add: u_def v_def algebra_simps)
  have "\<bar>b - a - q\<bar> \<le> ev + eu" using ea eb vu by linarith
  also have "ev + eu = (v + u) / 2 ^ 53" by (simp only: eu_def ev_def add_divide_distrib)
  also have "v + u = (2 * of_int i + 1) * q" by (simp add: u_def v_def algebra_simps)
  finally show ?thesis .
qed

lemma duration_range:
  assumes "1 / 1000000 \<le> fps" and "fps \<le> 1000000"
  shows "\<exists>q. float_truediv (Finite 1000000000) (Finite fps) = Inr (Finite q)
             \<and> pow2 (- 1022) \<le> q \<and> q < pow2 971
             \<and> \<bar>q - 1000000000 / fps\<bar> \<le> 1000000000 / fps / 2 ^ 53"
proof -
  have f0: "0 < fps" using assms(1) by linarith
  define x where "x = 1000000000 / fps"
  have xlo: "1000 \<le> x" using assms(2) f0 by (simp add: x_def field_simps)
  have xhi: "x \<le> 1000000000000000" using assms(1) f0 by (simp add: x_def field_simps)
  have p1: "pow2 (- 1022) \<le> 500" by (simp add: pow2_def)
  have p2: "(2000000000000000::rat) < pow2 971" by (simp add: pow2_def)
  have p3: "pow2 971 \<le> pow2 1023" by (rule pow2_mono) simp
  have lo: "pow2 (- 1022) \<le> \<bar>x\<bar>" using xlo p1 by linarith
  have hi: "\<bar>x\<bar> < pow2 1023" using xlo xhi p2 p3 by linarith
  obtain y where y: "round_double x = Finite y" "\<bar>y - x\<bar> \<le> \<bar>x\<bar> / 2 ^ 53"
    using round_double_error[OF lo hi] by blast
  have ax: "\<bar>x\<bar> = x" using xlo by linarith
  have "x / 2 ^ 53 \<le> x / 2" using xlo by (simp add: field_simps)
  then have "x / 2 \<le> y" "y \<le> 2 * x" using y(2) ax by linarith+
  then have "pow2 (- 1022) \<le> y" "y < pow2 971" using xlo xhi p1 p2 by linarith+
  moreover have "float_truediv (Finite 1000000000) (Finite fps) = Inr (Finite y)"
    using f0 y(1) by (simp add: x_def)
  ultimately show ?thesis using y(2) ax by (auto simp: x_def)
qed

section \<open>What each part of the program changes\<close>

lemma do_call_fields [simp]:
  "calls (do_call c w) = calls w @ [c]"
  "stdout (do_call c w) = stdout w"
  "dirs (do_call c w) = dirs w"
  "files (do_call c w) = files w"
  "shown (do_call c w) = shown w"
  "keys (do_call c w) = keys w"
  "released (do_call c w) = released w"
  "windows_destroyed (do_call c w) = windows_destroyed w"
  by (simp_all add: do_call_def)

lemma py_print_fields [simp]:
  "calls (py_print l w) = calls w"
  "stdout (py_print l w) = stdout w @ [l]"
  "dirs (py_print l w) = dirs w"
  "files (py_print l w) = files w"
  "shown (py_print l w) = shown w"
  "keys (py_print l w) = keys w"
  "released (py_print l w) = released w"
  "windows_destroyed (py_print l w) = windows_destroyed w"
  by (simp_all add: py_print_def)

lemma savePayload_fields [simp]:
  "calls (savePayload p folder w) = calls w"
  "stdout (savePayload p folder w) = stdout w"
  "dirs (savePayload p folder w) = dirs w"
  "shown (savePayload p folder w) = shown w"
  "keys (savePayload p folder w) = keys w"
  "released (savePayload p folder w) = released w"
  "windows_destroyed (savePayload p folder w) = windows_destroyed w"
  by (simp_all add: savePayload_def Let_def)

lemma grab_chunk_fields [simp]:
  "calls (grab_chunk v w) = calls w @ [GetChunkData (getChunkData (factory v) (calls w))]"
  "dirs (grab_chunk v w) = dirs w"
  "shown (grab_chunk v w) = shown w"
  "keys (grab_chunk v w) = keys w"
  "released (grab_chunk v w) = released w"
  "windows_destroyed (grab_chunk v w) = windows_destroyed w"
  by (simp_all add: grab_chunk_def Let_def split: option.splits)

lemma grab_chunk_stdout:
  "stdout (grab_chunk v w) =
     stdout w @ [case getChunkData (factory v) (calls w) of
                   None \<Rightarrow> GotEmptyChunk | Some p \<Rightarrow> GotChunk p]"
  by (simp add: grab_chunk_def Let_def split: option.splits)

lemma grab_chunk_files:
  "files (grab_chunk v w) =
     (case getChunkData (factory v) (calls w) of
        None \<Rightarrow> files w
      | Some p \<Rightarrow> (case output v of None \<Rightarrow> files w | Some folder \<Rightarrow> files (savePayload p folder w)))"
  by (simp add: grab_chunk_def Let_def savePayload_def do_call_def split: option.splits)

lemma render_fields [simp]:
  "calls (step_world (render n w)) = calls w"
  "stdout (step_world (render n w)) = stdout w"
  "files (step_world (render n w)) = files w"
  "dirs (step_world (render n w)) = dirs w"
  "released (step_world (render n w)) = released w"
  "windows_destroyed (step_world (render n w)) = windows_destroyed w"
  by (simp_all add: render_def waitKey_def split: list.splits prod.splits)

lemma render_not_Raise [simp]: "render n w \<noteq> Raise e w1"
  by (simp add: render_def split: prod.splits)

lemma render_not_Break_True [simp]: "render n w \<noteq> Break True w1"
  by (simp add: render_def split: prod.splits)

lemma render_keys:
  "keys (step_world (render n w)) = (if n mod 10 = 0 then tl (keys w) else keys w)"
  by (simp add: render_def waitKey_def split: list.splits)

lemma render_shown:
  "shown (step_world (render n w)) = (if n mod 10 = 0 then shown w @ [n] else shown w)"
  by (simp add: render_def waitKey_def split: list.splits)

lemma render_skip: "n mod 10 \<noteq> 0 \<Longrightarrow> render n w = Continue w"
  by (simp add: render_def)

lemma render_quit:
  "n mod 10 = 0 \<Longrightarrow> keys w = k # ks \<Longrightarrow> k mod 256 = 113 \<Longrightarrow>
     render n w = Break False (w\<lparr>shown := shown w @ [n], keys := ks\<rparr>)"
  by (simp add: render_def waitKey_def)

lemma make_frame_Inr:
  assumes "make_frame v fr w = (Inr frame, w1)"
  shows "calls w1 = calls w @ [CreateFrame (video_frame frame), CreateFace (f_id (hd (faces frame)))]"
    and "marker_rule frame"
    and "timestamp_rule (durationOneFrame_ns v) frame"
    and "py_int (snd fr) = Inr (frame_number frame)"
    and "stdout w1 = stdout w" "files w1 = files w" "dirs w1 = dirs w" "keys w1 = keys w"
      "shown w1 = shown w" "released w1 = released w" "windows_destroyed w1 = windows_destroyed w"
  using assms
  by (auto simp: make_frame_def createDFXFace_def Let_def marker_rule_def timestamp_rule_def
      frame_number_def frame_timestamp_def split: sum.splits option.splits)

lemma make_frame_Inl:
  assumes "make_frame v fr w = (Inl e, w1)"
  shows "\<exists>new. calls w1 = calls w @ new \<and> list_all loop_call new \<and> submissions new = []"
    and "stdout w1 = stdout w" "files w1 = files w" "dirs w1 = dirs w" "keys w1 = keys w"
      "shown w1 = shown w" "released w1 = released w" "windows_destroyed w1 = windows_destroyed w"
  using assms
  by (auto simp: make_frame_def createDFXFace_def Let_def split: sum.splits option.splits)

lemma submit_fields:
  assumes "submit v frame w = (result, w1)"
  shows "calls w1 = calls w @ [DefineRegions frame, ExtractChannels frame result]"
    and "result = extractChannels (factory v) (calls w @ [DefineRegions frame]) frame"
    and "stdout w1 = stdout w" "files w1 = files w" "dirs w1 = dirs w" "keys w1 = keys w"
      "shown w1 = shown w" "released w1 = released w" "windows_destroyed w1 = windows_destroyed w"
  using assms by (auto simp: submit_def Let_def)

lemma submissions_append [simp]: "submissions (xs @ ys) = submissions xs @ submissions ys"
  by (induction xs rule: submissions.induct) simp_all

lemma submitted_append [simp]: "submitted (xs @ ys) = submitted xs @ submitted ys"
  by (simp add: submitted_def)

text \<open>One pass through the loop body, when the frame could be made.\<close>

lemma iteration_made:
  assumes "make_frame v fr w = (Inr frame, w1)" and "submit v frame w1 = (result, w2)"
  shows "iteration v fr w =
     (if result = COMPLETED
      then Break True (py_print (CompletedAtFrame (frame_number frame)) (grab_chunk v w2))
      else render (frame_number frame) (if result = CHUNKREADY then grab_chunk v w2 else w2))"
  using assms by (simp add: iteration_def Let_def frame_number_def)

lemma iteration_not_made:
  assumes "make_frame v fr w = (Inl e, w1)"
  shows "iteration v fr w = Raise e w1"
  using assms by (simp add: iteration_def)

lemma iteration_calls:
  "\<exists>new. calls (step_world (iteration v fr w)) = calls w @ new
      \<and> list_all loop_call new \<and> list_all (frame_rule v) (submitted new)"
proof (cases "make_frame v fr w")
  case (Pair r w1)
  show ?thesis
  proof (cases r)
    case (Inl e)
    with Pair make_frame_Inl(1)[of v fr w e w1] show ?thesis
      by (auto simp: iteration_not_made submitted_def)
  next
    case (Inr frame)
    obtain result w2 where s: "submit v frame w1 = (result, w2)" by (cases "submit v frame w1")
    have m: "make_frame v fr w = (Inr frame, w1)" using Pair Inr by simp
    have fr: "frame_rule v frame"
      using make_frame_Inr(2,3)[OF m] by (simp add: frame_rule_def)
    have c1: "calls w1 = calls w @ [CreateFrame (video_frame frame), CreateFace (f_id (hd (faces frame)))]"
      using make_frame_Inr(1)[OF m] .
    have c2: "calls w2 = calls w1 @ [DefineRegions frame, ExtractChannels frame result]"
      using submit_fields(1)[OF s] .
    show ?thesis
      using fr c1 c2 by (simp add: iteration_made[OF m s] submitted_def)
  qed
qed

lemma loop_calls:
  "\<exists>new. calls (snd (loop v frames w)) = calls w @ new
      \<and> list_all loop_call new \<and> list_all (frame_rule v) (submitted new)"
proof (induction frames arbitrary: w)
  case Nil
  show ?case by (simp add: submitted_def)
next
  case (Cons fr rest)
  obtain new1 where n1: "calls (step_world (iteration v fr w)) = calls w @ new1"
      "list_all loop_call new1" "list_all (frame_rule v) (submitted new1)"
    using iteration_calls by blast
  show ?case
  proof (cases "iteration v fr w")
    case (Continue w1)
    obtain new2 where n2: "calls (snd (loop v rest w1)) = calls w1 @ new2"
      "list_all loop_call new2" "list_all (frame_rule v) (submitted new2)"
      using Cons.IH by blast
    from Continue n1 n2 have "calls (snd (loop v (fr # rest) w)) = calls w @ (new1 @ new2)"
      by simp
    moreover from n1 n2 have "list_all loop_call (new1 @ new2)"
      "list_all (frame_rule v) (submitted (new1 @ new2))" by simp_all
    ultimately show ?thesis by blast
  next
    case (Break b w1)
    with n1 show ?thesis by auto
  next
    case (Raise e w1)
    with n1 show ?thesis by auto
  qed
qed

lemma iteration_released [simp]: "released (step_world (iteration v fr w)) = released w"
proof (cases "make_frame v fr w")
  case (Pair r w1)
  show ?thesis
  proof (cases r)
    case (Inl e)
    with Pair make_frame_Inl[of v fr w e w1] show ?thesis
      by (simp add: iteration_not_made)
  next
    case (Inr frame)
    obtain result w2 where s: "submit v frame w1 = (result, w2)" by (cases "submit v frame w1")
    have m: "make_frame v fr w = (Inr frame, w1)" using Pair Inr by simp
    show ?thesis
      using make_frame_Inr(10)[OF m] submit_fields(8)[OF s] by (simp add: iteration_made[OF m s])
  qed
qed

lemma loop_released [simp]: "released (snd (loop v frames w)) = released w"
proof (induction frames arbitrary: w)
  case Nil
  show ?case by simp
next
  case (Cons fr rest)
  have "released (step_world (iteration v fr w)) = released w" by simp
  then show ?case using Cons.IH by (cases "iteration v fr w") simp_all
qed

lemma loop_passes: "passes v frames w = Some w1 \<Longrightarrow> loop v frames w = (Inr True, grab_chunk v w1)"
  by (induction frames arbitrary: w) (auto split: step.splits)

lemma loop_append: "passes v pre w = Some w1 \<Longrightarrow> loop v (pre @ rest) w = loop v rest w1"
  by (induction pre arbitrary: w) (auto split: step.splits)

section \<open>What the part before the loop does\<close>

lemma float_of_int_5 [simp]: "float_of_int 5 = Inr (Finite 5)"
  using round_double_of_int[of 5] by (simp add: float_of_int_def)

lemma start_Inr:
  assumes "start env videoPath facePath studyPath out w0 = (Inr (v, cap), w)"
  shows "factory v = dfx env" "videofaces v = load_frames env facePath" "output v = out"
    "cap = open_video env videoPath"
    "float_truediv (Finite 1000000000) (CAP_PROP_FPS cap) = Inr (durationOneFrame_ns v)"
    "released w = released w0" "keys w = keys w0" "shown w = shown w0" "files w = files w0"
    "windows_destroyed w = windows_destroyed w0"
  using assms
  by (auto simp: start_def Let_def make_output_folder_def split: if_splits sum.splits option.splits)

lemma start_Inl:
  assumes "start env videoPath facePath studyPath out w0 = (Inl e, w)"
  shows "calls w = calls w0" "released w = released w0" "keys w = keys w0" "shown w = shown w0"
    "files w = files w0" "dirs w = dirs w0" "windows_destroyed w = windows_destroyed w0"
  using assms
  by (auto simp: start_def Let_def split: if_splits sum.splits option.splits)

lemma start_zero_fps:
  assumes "initializeStudyFromFile (dfx env) studyPath" and "getCollectorState (dfx env) \<noteq> ERROR"
    and "CAP_PROP_FPS (open_video env videoPath) = Finite 0"
  shows "start env videoPath facePath studyPath out w0 =
     (Inl ZeroDivisionError,
      py_print CreatedCollector (py_print (CreatedStudy studyPath) (py_print CreatedFactory w0)))"
  using assms by (simp add: start_def Let_def)

lemma start_calls:
  assumes "start env videoPath facePath studyPath out w0 = (Inr (v, cap), w)"
  shows "\<exists>frames total chunks n.
           py_int (CAP_PROP_FRAME_COUNT cap) = Inr frames
         \<and> int_truediv_float frames (CAP_PROP_FPS cap) = Inr total
         \<and> float_truediv_int total 5 = Inr chunks
         \<and> math_ceil chunks = Inr n
         \<and> calls w = calls w0 @ [SetTargetFPS (CAP_PROP_FPS cap), SetChunkDurationSeconds 5,
                                  SetNumberChunks n, StartCollection]"
  using assms
  by (auto simp: start_def Let_def make_output_folder_def split: if_splits sum.splits option.splits)

section \<open>Evaluating the small runs\<close>

lemma round_double_numeral [simp]:
  "(numeral k :: int) < 2 ^ 53 \<Longrightarrow> round_double (numeral k) = Finite (numeral k)"
  using round_double_of_int[of "numeral k"] by simp

lemma round_double_1 [simp]: "round_double 1 = Finite 1"
  using round_double_of_int[of 1] by simp

lemma round_double_2_5: "round_double (2 / 5) = Finite (3602879701896397 / 9007199254740992)"
proof -
  have "round_double (2 / 5) = Finite (of_int 7205759403792794 * pow2 (- 54))"
  proof (rule round_double_eq)
    show "(2 / 5::rat) \<noteq> 0" by simp
    show "ulp_exp (2 / 5) = - 54" by code_simp
    show "round_half_even (2 / 5 / pow2 (- 54)) = 7205759403792794" by code_simp
    show "\<bar>of_int 7205759403792794 * pow2 (- 54)\<bar> < 2 ^ 1024" by (simp add: pow2_def)
  qed
  then show ?thesis by (simp add: pow2_def)
qed

lemma str_1: "str 1 = ''1''" by code_simp
lemma str_2: "str 2 = ''2''" by code_simp

lemmas ex_defs = ex_run_def ex_env_def ex_dfx_def ex_world_def ex_face_def
  doExtraction_def start_def make_output_folder_def finish_def
  iteration_def make_frame_def submit_def createDFXFace_def grab_chunk_def render_def waitKey_def
  do_call_def py_print_def
  float_of_int_def int_truediv_float_def float_truediv_int_def int_mul_float_def
  Let_def str_1 str_2 round_double_2_5

lemma str_10: "str 10 = ''10''" by code_simp
lemma str_11: "str 11 = ''11''" by code_simp
lemma str_1000: "str 1000 = ''1000''" by code_simp
lemma str_1001: "str 1001 = ''1001''" by code_simp

lemma str_20: "str 20 = ''20''" by code_simp
lemma str_21: "str 21 = ''21''" by code_simp


section \<open>The run as a whole\<close>

lemma doExtraction_started:
  assumes "start env videoPath facePath studyPath out w0 = (Inr (v, cap), w)"
  shows "doExtraction env videoPath facePath studyPath out w0 =
     (case loop v (cap_frames cap) w of
        (Inl e, w1) \<Rightarrow> (Inl e, w1)
      | (Inr success, w1) \<Rightarrow> (Inr (), finish success w1))"
  using assms by (simp add: doExtraction_def)

lemma doExtraction_not_started:
  assumes "start env videoPath facePath studyPath out w0 = (Inl e, w)"
  shows "doExtraction env videoPath facePath studyPath out w0 = (Inl e, w)"
  using assms by (simp add: doExtraction_def)

lemma finish_fields [simp]:
  "calls (finish success w) = calls w"
  "stdout (finish success w) =
     stdout w @ [if success then CollectionFinishedCompletely else CollectionInterruptedOrFailed]"
  "files (finish success w) = files w"
  "dirs (finish success w) = dirs w"
  "keys (finish success w) = keys w"
  "released (finish success w)"
  by (simp_all add: finish_def)

section \<open>Properties of a run\<close>

subsection \<open>C1: the answer ERROR\<close>

text \<open>
  The loop does not stop at \<^verbatim>\<open>ERROR\<close>.  The collector answers \<^verbatim>\<open>ERROR\<close> to frame 1 of a video
  of two frames: frame 2 is submitted all the same, the chunk is asked for when the video
  has ended, and the run reports that the collection finished completely.
\<close>

theorem error_answer_counterexample:
  "fst (ex_run [(1, ERROR)] 1 [1, 2] [1, 2] None []) = Inr ()
   \<and> map frame_number (submitted (calls (snd (ex_run [(1, ERROR)] 1 [1, 2] [1, 2] None [])))) = [1, 2]
   \<and> map snd (submissions (calls (snd (ex_run [(1, ERROR)] 1 [1, 2] [1, 2] None [])))) = [ERROR, COLLECTING]
   \<and> last (calls (snd (ex_run [(1, ERROR)] 1 [1, 2] [1, 2] None []))) = GetChunkData (Some ex_payload)
   \<and> last (stdout (snd (ex_run [(1, ERROR)] 1 [1, 2] [1, 2] None []))) = CollectionFinishedCompletely"
  by (simp add: ex_defs submitted_def frame_number_def)

text \<open>
  Claim C1, as the code has it.  The loop looks at the answer of a submit only to see
  whether it is \<^verbatim>\<open>CHUNKREADY\<close> or \<^verbatim>\<open>COMPLETED\<close>.  When the answer is \<^verbatim>\<open>ERROR\<close>, no chunk is
  asked for in that pass and the pass goes on to the display step of every 10th frame, as
  after \<^verbatim>\<open>COLLECTING\<close>: the calls of the pass are those that make and submit the frame, the
  loop goes on with the frames that remain, nothing marks the run as failed, and when the
  video ends next the chunk is asked for and the loop ends with \<^verbatim>\<open>success = True\<close>.
\<close>

theorem error_answer_is_ignored:
  assumes "make_frame v fr w = (Inr frame, w1)" and "submit v frame w1 = (ERROR, w2)"
  shows "iteration v fr w = render (frame_number frame) w2
     \<and> calls (step_world (iteration v fr w)) =
          calls w @ [CreateFrame (video_frame frame), CreateFace (f_id (hd (faces frame))),
                     DefineRegions frame, ExtractChannels frame ERROR]
     \<and> (frame_number frame mod 10 \<noteq> 0 \<longrightarrow> loop v (fr # rest) w = loop v rest w2)
     \<and> (frame_number frame mod 10 \<noteq> 0 \<longrightarrow> loop v [fr] w = (Inr True, grab_chunk v w2))"
proof -
  have i: "iteration v fr w = render (frame_number frame) w2"
    using iteration_made[OF assms] by simp
  have c: "calls w2 = calls w @ [CreateFrame (video_frame frame), CreateFace (f_id (hd (faces frame))),
                     DefineRegions frame, ExtractChannels frame ERROR]"
    using make_frame_Inr(1)[OF assms(1)] submit_fields(1)[OF assms(2)] by simp
  show ?thesis using i c by (simp add: render_skip)
qed

theorem error_answer_is_ignored_witness:
  "make_frame (ex_locals [(1, ERROR)] [1] None) ([], Finite 1) (ex_world []) =
     (Inr ex_frame_1, do_call (CreateFace ''1'') (do_call (CreateFrame (video_frame ex_frame_1)) (ex_world [])))
   \<and> fst (loop (ex_locals [(1, ERROR)] [1] None) [([], Finite 1)] (ex_world [])) = Inr True
   \<and> map snd (submissions (calls (snd (loop (ex_locals [(1, ERROR)] [1] None) [([], Finite 1)] (ex_world []))))) = [ERROR]
   \<and> last (calls (snd (loop (ex_locals [(1, ERROR)] [1] None) [([], Finite 1)] (ex_world [])))) =
        GetChunkData (Some ex_payload)"
proof -
  let ?v = "ex_locals [(1, ERROR)] [1] None"
  let ?w1 = "do_call (CreateFace ''1'') (do_call (CreateFrame (video_frame ex_frame_1)) (ex_world []))"
  let ?w2 = "do_call (ExtractChannels ex_frame_1 ERROR) (do_call (DefineRegions ex_frame_1) ?w1)"
  have m: "make_frame ?v ([], Finite 1) (ex_world []) = (Inr ex_frame_1, ?w1)"
    by (simp add: ex_locals_def ex_frame_1_def ex_face_def make_frame_def createDFXFace_def
        int_mul_float_def float_of_int_def str_1 Let_def)
  have s: "submit ?v ex_frame_1 ?w1 = (ERROR, ?w2)"
    by (simp add: ex_locals_def ex_dfx_def ex_frame_1_def submit_def Let_def)
  have n: "frame_number ex_frame_1 mod 10 \<noteq> 0"
    by (simp add: frame_number_def ex_frame_1_def)
  have "loop ?v [([], Finite 1)] (ex_world []) = (Inr True, grab_chunk ?v ?w2)"
    using error_answer_is_ignored[OF m s, of "[]"] n by blast
  then show ?thesis using m
    by (simp add: ex_locals_def ex_dfx_def ex_world_def)
qed

subsection \<open>C2: the number of chunks\<close>



subsection \<open>C3: the end of the video\<close>

text \<open>
  Claim C3.  When the loop gets through all frames of the video without the collector
  answering \<^verbatim>\<open>COMPLETED\<close> (and without an exception or the key \<^verbatim>\<open>q\<close>), the program asks
  the collector for a chunk exactly once after the last frame, hands a chunk that is not
  \<^verbatim>\<open>None\<close> on (it is printed, and saved when an output folder was given), reports the
  collection as finished completely, releases the capture and returns normally.
\<close>

theorem end_of_stream_final_flush:
  assumes "start env videoPath facePath studyPath out w0 = (Inr (v, cap), w)"
    and "passes v (cap_frames cap) w = Some w1"
  shows "\<exists>w2. doExtraction env videoPath facePath studyPath out w0 = (Inr (), w2)
     \<and> calls w2 = calls w1 @ [GetChunkData (getChunkData (dfx env) (calls w1))]
     \<and> stdout w2 = stdout w1 @
          [case getChunkData (dfx env) (calls w1) of None \<Rightarrow> GotEmptyChunk | Some p \<Rightarrow> GotChunk p,
           CollectionFinishedCompletely]
     \<and> files w2 =
          (case getChunkData (dfx env) (calls w1) of
             None \<Rightarrow> files w1
           | Some p \<Rightarrow> (case out of None \<Rightarrow> files w1 | Some folder \<Rightarrow> files (savePayload p folder w1)))
     \<and> released w2"
proof -
  have "doExtraction env videoPath facePath studyPath out w0 = (Inr (), finish True (grab_chunk v w1))"
    using doExtraction_started[OF assms(1)] loop_passes[OF assms(2)] by simp
  then show ?thesis
    using start_Inr(1,3)[OF assms(1)]
    by (simp add: grab_chunk_stdout grab_chunk_files split: option.splits)
qed

theorem end_of_stream_final_flush_witness:
  "fst (ex_run [] 1 [1, 2] [1, 2] (Some ''out'') []) = Inr ()
   \<and> last (calls (snd (ex_run [] 1 [1, 2] [1, 2] (Some ''out'') []))) = GetChunkData (Some ex_payload)
   \<and> last (stdout (snd (ex_run [] 1 [1, 2] [1, 2] (Some ''out'') []))) = CollectionFinishedCompletely
   \<and> released (snd (ex_run [] 1 [1, 2] [1, 2] (Some ''out'') []))"
proof -
  obtain v cap w w1
    where s: "start (ex_env [] 1 [1, 2] [1, 2]) ''video.mp4'' ''faces.json'' ''study.dat''
                (Some ''out'') (ex_world []) = (Inr (v, cap), w)"
      and p: "passes v (cap_frames cap) w = Some w1"
    by (simp add: ex_defs)
  from end_of_stream_final_flush[OF s p] show ?thesis
    by (auto simp: ex_run_def ex_env_def ex_dfx_def)
qed

subsection \<open>C4: the timestamps\<close>

text \<open>The roundings that occur in a run of three frames at 30 frames per second.\<close>

lemma round_double_1e9_30: "round_double (100000000 / 3) = Finite (8947848533333333 / 268435456)"
proof -
  have "round_double (100000000 / 3) = Finite (of_int 8947848533333333 * pow2 (- 28))"
  proof (rule round_double_eq)
    show "(100000000 / 3::rat) \<noteq> 0" by simp
    show "ulp_exp (100000000 / 3) = - 28" by code_simp
    show "round_half_even (100000000 / 3 / pow2 (- 28)) = 8947848533333333" by code_simp
    show "\<bar>of_int 8947848533333333 * pow2 (- 28)\<bar> < 2 ^ 1024" by (simp add: pow2_def)
  qed
  then show ?thesis by (simp add: pow2_def)
qed

lemma round_double_1_10: "round_double (1 / 10) = Finite (3602879701896397 / 36028797018963968)"
proof -
  have "round_double (1 / 10) = Finite (of_int 7205759403792794 * pow2 (- 56))"
  proof (rule round_double_eq)
    show "(1 / 10::rat) \<noteq> 0" by simp
    show "ulp_exp (1 / 10) = - 56" by code_simp
    show "round_half_even (1 / 10 / pow2 (- 56)) = 7205759403792794" by code_simp
    show "\<bar>of_int 7205759403792794 * pow2 (- 56)\<bar> < 2 ^ 1024" by (simp add: pow2_def)
  qed
  then show ?thesis by (simp add: pow2_def)
qed

lemma round_double_1_10_5: "round_double (3602879701896397 / 180143985094819840) = Finite (5764607523034235 / 288230376151711744)"
proof -
  have "round_double (3602879701896397 / 180143985094819840) = Finite (of_int 5764607523034235 * pow2 (- 58))"
  proof (rule round_double_eq)
    show "(3602879701896397 / 180143985094819840::rat) \<noteq> 0" by simp
    show "ulp_exp (3602879701896397 / 180143985094819840) = - 58" by code_simp
    show "round_half_even (3602879701896397 / 180143985094819840 / pow2 (- 58)) = 5764607523034235" by code_simp
    show "\<bar>of_int 5764607523034235 * pow2 (- 58)\<bar> < 2 ^ 1024" by (simp add: pow2_def)
  qed
  then show ?thesis by (simp add: pow2_def)
qed

lemma round_double_d30: "round_double (8947848533333333 / 268435456) = Finite (8947848533333333 / 268435456)"
proof -
  have "round_double (8947848533333333 / 268435456) = Finite (of_int 8947848533333333 * pow2 (- 28))"
  proof (rule round_double_eq)
    show "(8947848533333333 / 268435456::rat) \<noteq> 0" by simp
    show "ulp_exp (8947848533333333 / 268435456) = - 28" by code_simp
    show "round_half_even (8947848533333333 / 268435456 / pow2 (- 28)) = 8947848533333333" by code_simp
    show "\<bar>of_int 8947848533333333 * pow2 (- 28)\<bar> < 2 ^ 1024" by (simp add: pow2_def)
  qed
  then show ?thesis by (simp add: pow2_def)
qed

lemma round_double_2_d30: "round_double (8947848533333333 / 134217728) = Finite (8947848533333333 / 134217728)"
proof -
  have "round_double (8947848533333333 / 134217728) = Finite (of_int 8947848533333333 * pow2 (- 27))"
  proof (rule round_double_eq)
    show "(8947848533333333 / 134217728::rat) \<noteq> 0" by simp
    show "ulp_exp (8947848533333333 / 134217728) = - 27" by code_simp
    show "round_half_even (8947848533333333 / 134217728 / pow2 (- 27)) = 8947848533333333" by code_simp
    show "\<bar>of_int 8947848533333333 * pow2 (- 27)\<bar> < 2 ^ 1024" by (simp add: pow2_def)
  qed
  then show ?thesis by (simp add: pow2_def)
qed

lemma round_double_3_d30: "round_double (26843545599999999 / 268435456) = Finite 100000000"
proof -
  have "round_double (26843545599999999 / 268435456) = Finite (of_int 6710886400000000 * pow2 (- 26))"
  proof (rule round_double_eq)
    show "(26843545599999999 / 268435456::rat) \<noteq> 0" by simp
    show "ulp_exp (26843545599999999 / 268435456) = - 26" by code_simp
    show "round_half_even (26843545599999999 / 268435456 / pow2 (- 26)) = 6710886400000000" by code_simp
    show "\<bar>of_int 6710886400000000 * pow2 (- 26)\<bar> < 2 ^ 1024" by (simp add: pow2_def)
  qed
  then show ?thesis by (simp add: pow2_def)
qed

lemma str_3: "str 3 = ''3''" by code_simp

text \<open>
  The timestamps are not spaced exactly.  At 30 frames per second the duration of one
  frame is the double nearest to \<^verbatim>\<open>1e9 / 30\<close>, which is not that quotient itself.  The
  timestamps of the frames 1, 2 and 3 are that double, twice that double, and \<^verbatim>\<open>1e8\<close>: the
  frames 2 and 3 are not one frame duration apart, and the timestamp of frame 1 is not
  1 times the exact quotient.
\<close>

theorem timestamp_spacing_counterexample:
  "map frame_number (submitted (calls (snd (ex_run [] 30 [1, 2, 3] [1, 2, 3] None [])))) = [1, 2, 3]
   \<and> map frame_timestamp (submitted (calls (snd (ex_run [] 30 [1, 2, 3] [1, 2, 3] None [])))) =
        [Finite (8947848533333333 / 268435456), Finite (8947848533333333 / 134217728),
         Finite 100000000]
   \<and> float_truediv (Finite 1000000000) (Finite 30) = Inr (Finite (8947848533333333 / 268435456))
   \<and> (100000000 :: rat) - 8947848533333333 / 134217728 \<noteq> 8947848533333333 / 268435456
   \<and> (8947848533333333 / 268435456 :: rat) \<noteq> 1 * (1000000000 / 30)"
  by (simp add: ex_defs str_3 submitted_def frame_timestamp_def frame_number_def
      round_double_1e9_30 round_double_1_10 round_double_1_10_5 round_double_d30
      round_double_2_d30 round_double_3_d30)

text \<open>
  Claim C4, as the code has it.  The timestamp of every submitted frame is the float
  product of its frame number and the duration of one frame, which is the float quotient
  of \<^verbatim>\<open>1e9\<close> and the frame rate; each of the two operations rounds to the nearest double.
  For a frame rate between one frame in a million seconds and a million frames per
  second, the duration of one frame \<open>q\<close> differs from \<^verbatim>\<open>1e9\<close> over the frame rate by at most
  that quotient over \<open>2 ^ 53\<close>; for frame numbers from 0 up to \<open>2 ^ 52\<close> the timestamps are
  finite and grow strictly with the frame number, and the timestamps of the frames \<open>i\<close>
  and \<open>i + 1\<close> differ by \<open>q\<close> up to \<open>(2 * i + 1) * q / 2 ^ 53\<close>.
\<close>

theorem timestamps_of_submitted_frames:
  assumes "CAP_PROP_FPS (open_video env videoPath) = Finite fps"
    and "1 / 1000000 \<le> fps" and "fps \<le> 1000000"
    and "doExtraction env videoPath facePath studyPath out w0 = (r, w)"
    and "calls w = calls w0 @ new"
  shows "\<exists>q. float_truediv (Finite 1000000000) (Finite fps) = Inr (Finite q)
     \<and> \<bar>q - 1000000000 / fps\<bar> \<le> 1000000000 / fps / 2 ^ 53
     \<and> (\<forall>f \<in> set (submitted new).
           int_mul_float (frame_number f) (Finite q) = Inr (frame_timestamp f))
     \<and> (\<forall>f \<in> set (submitted new). \<forall>g \<in> set (submitted new).
           0 \<le> frame_number f \<and> frame_number f < frame_number g \<and> frame_number g < 2 ^ 52 \<longrightarrow>
           (\<exists>a b. frame_timestamp f = Finite a \<and> frame_timestamp g = Finite b \<and> a < b
              \<and> (frame_number g = frame_number f + 1 \<longrightarrow>
                   \<bar>b - a - q\<bar> \<le> (2 * of_int (frame_number f) + 1) * q / 2 ^ 53)))"
proof -
  obtain q where q: "float_truediv (Finite 1000000000) (Finite fps) = Inr (Finite q)"
      "pow2 (- 1022) \<le> q" "q < pow2 971"
      "\<bar>q - 1000000000 / fps\<bar> \<le> 1000000000 / fps / 2 ^ 53"
    using duration_range[OF assms(2,3)] by blast
  have rule: "\<forall>f \<in> set (submitted new). timestamp_rule (Finite q) f"
  proof (cases "start env videoPath facePath studyPath out w0")
    case (Pair s ws)
    show ?thesis
    proof (cases s)
      case (Inl e)
      with Pair assms(4,5) start_Inl(1)[of env videoPath facePath studyPath out w0 e ws]
      show ?thesis by (auto simp: doExtraction_not_started submitted_def)
    next
      case (Inr p)
      obtain v cap where p: "p = (v, cap)" by (cases p)
      have s: "start env videoPath facePath studyPath out w0 = (Inr (v, cap), ws)"
        using Pair Inr p by simp
      have d: "durationOneFrame_ns v = Finite q"
        using start_Inr(4,5)[OF s] assms(1) q(1) by simp
      obtain n where c0: "calls ws = calls w0 @ [SetTargetFPS (CAP_PROP_FPS cap),
          SetChunkDurationSeconds 5, SetNumberChunks n, StartCollection]"
        using start_calls[OF s] by blast
      obtain new1 where c1: "calls (snd (loop v (cap_frames cap) ws)) = calls ws @ new1"
        and fr: "list_all (frame_rule v) (submitted new1)"
        using loop_calls by blast
      have "calls w = calls (snd (loop v (cap_frames cap) ws))"
        using assms(4) by (auto simp: doExtraction_started[OF s] split: prod.splits sum.splits)
      then have "new = [SetTargetFPS (CAP_PROP_FPS cap), SetChunkDurationSeconds 5,
          SetNumberChunks n, StartCollection] @ new1"
        using assms(5) c0 c1 by simp
      then have "submitted new = submitted new1" by (simp add: submitted_def)
      with fr d show ?thesis by (auto simp: list_all_iff frame_rule_def)
    qed
  qed
  have order: "\<exists>a b. frame_timestamp f = Finite a \<and> frame_timestamp g = Finite b \<and> a < b
              \<and> (frame_number g = frame_number f + 1 \<longrightarrow>
                   \<bar>b - a - q\<bar> \<le> (2 * of_int (frame_number f) + 1) * q / 2 ^ 53)"
    if f: "f \<in> set (submitted new)" and g: "g \<in> set (submitted new)"
      and n: "0 \<le> frame_number f" "frame_number f < frame_number g" "frame_number g < 2 ^ 52"
    for f g
  proof -
    have tf: "int_mul_float (frame_number f) (Finite q) = Inr (frame_timestamp f)"
      and tg: "int_mul_float (frame_number g) (Finite q) = Inr (frame_timestamp g)"
      using rule f g by (simp_all add: timestamp_rule_def)
    obtain a where a: "frame_timestamp f = Finite a"
      using timestamp_error[OF q(2,3) n(1), of ] n tf by auto
    obtain b where b: "frame_timestamp g = Finite b"
      using timestamp_error[OF q(2,3), of "frame_number g"] n tg by auto
    have ab: "a < b"
      using timestamps_increase[OF q(2,3) n] tf tg a b by simp
    have "\<bar>b - a - q\<bar> \<le> (2 * of_int (frame_number f) + 1) * q / 2 ^ 53"
      if "frame_number g = frame_number f + 1"
      using timestamps_step[OF q(2,3) n(1), of a b] n(3) tf tg a b that by simp
    with a b ab show ?thesis by blast
  qed
  have "float_truediv (Finite 1000000000) (Finite fps) = Inr (Finite q)
     \<and> \<bar>q - 1000000000 / fps\<bar> \<le> 1000000000 / fps / 2 ^ 53
     \<and> (\<forall>f \<in> set (submitted new).
           int_mul_float (frame_number f) (Finite q) = Inr (frame_timestamp f))
     \<and> (\<forall>f \<in> set (submitted new). \<forall>g \<in> set (submitted new).
           0 \<le> frame_number f \<and> frame_number f < frame_number g \<and> frame_number g < 2 ^ 52 \<longrightarrow>
           (\<exists>a b. frame_timestamp f = Finite a \<and> frame_timestamp g = Finite b \<and> a < b
              \<and> (frame_number g = frame_number f + 1 \<longrightarrow>
                   \<bar>b - a - q\<bar> \<le> (2 * of_int (frame_number f) + 1) * q / 2 ^ 53)))"
  proof (intro conjI)
    show "float_truediv (Finite 1000000000) (Finite fps) = Inr (Finite q)" by (rule q(1))
    show "\<bar>q - 1000000000 / fps\<bar> \<le> 1000000000 / fps / 2 ^ 53" by (rule q(4))
    show "\<forall>f \<in> set (submitted new).
           int_mul_float (frame_number f) (Finite q) = Inr (frame_timestamp f)"
      using rule by (simp add: timestamp_rule_def)
    show "\<forall>f \<in> set (submitted new). \<forall>g \<in> set (submitted new).
           0 \<le> frame_number f \<and> frame_number f < frame_number g \<and> frame_number g < 2 ^ 52 \<longrightarrow>
           (\<exists>a b. frame_timestamp f = Finite a \<and> frame_timestamp g = Finite b \<and> a < b
              \<and> (frame_number g = frame_number f + 1 \<longrightarrow>
                   \<bar>b - a - q\<bar> \<le> (2 * of_int (frame_number f) + 1) * q / 2 ^ 53))"
    proof (intro ballI impI)
      fix f g
      assume "f \<in> set (submitted new)" "g \<in> set (submitted new)"
        "0 \<le> frame_number f \<and> frame_number f < frame_number g \<and> frame_number g < 2 ^ 52"
      then show "\<exists>a b. frame_timestamp f = Finite a \<and> frame_timestamp g = Finite b \<and> a < b
              \<and> (frame_number g = frame_number f + 1 \<longrightarrow>
                   \<bar>b - a - q\<bar> \<le> (2 * of_int (frame_number f) + 1) * q / 2 ^ 53)"
        using order[of f g] by blast
    qed
  qed
  then show ?thesis by (rule exI)
qed

theorem timestamps_of_submitted_frames_witness:
  "\<exists>q. float_truediv (Finite 1000000000) (Finite 30) = Inr (Finite q)
     \<and> \<bar>q - 1000000000 / 30\<bar> \<le> 1000000000 / 30 / 2 ^ 53
     \<and> list_all (timestamp_rule (Finite q))
          (submitted (calls (snd (ex_run [] 30 [1, 2, 3] [1, 2, 3] None []))))"
proof -
  have "CAP_PROP_FPS (open_video (ex_env [] 30 [1, 2, 3] [1, 2, 3]) ''video.mp4'') = Finite 30"
    and "(1 / 1000000 :: rat) \<le> 30" and "(30 :: rat) \<le> 1000000"
    and "doExtraction (ex_env [] 30 [1, 2, 3] [1, 2, 3]) ''video.mp4'' ''faces.json'' ''study.dat''
           None (ex_world []) =
         (fst (ex_run [] 30 [1, 2, 3] [1, 2, 3] None []), snd (ex_run [] 30 [1, 2, 3] [1, 2, 3] None []))"
    and "calls (snd (ex_run [] 30 [1, 2, 3] [1, 2, 3] None [])) =
         calls (ex_world []) @ calls (snd (ex_run [] 30 [1, 2, 3] [1, 2, 3] None []))"
    by (simp_all add: ex_env_def ex_run_def ex_world_def)
  from timestamps_of_submitted_frames[OF this]
  show ?thesis by (auto simp: list_all_iff timestamp_rule_def)
qed

subsection \<open>C5: a frame without face tracking data\<close>

text \<open>
  Claim C5.  When the loop reaches a frame whose number has no entry in the face tracking
  data, the run ends with the \<^verbatim>\<open>KeyError\<close> of that lookup, which leaves \<^verbatim>\<open>doExtraction\<close>
  uncaught and is not retried.  The only thing done for that frame is the creation of
  the collector's frame: no chunk is asked for, printed or saved after the frame is
  reached.
\<close>

theorem missing_annotation_raises:
  assumes "start env videoPath facePath studyPath out w0 = (Inr (v, cap), w)"
    and "cap_frames cap = pre @ (img, pos) # post"
    and "passes v pre w = Some w1"
    and "py_int pos = Inr n"
    and "int_mul_float n (durationOneFrame_ns v) = Inr t"
    and "load_frames env facePath (str n) = None"
  shows "\<exists>w2. doExtraction env videoPath facePath studyPath out w0 = (Inl (KeyError (str n)), w2)
     \<and> calls w2 = calls w1 @ [CreateFrame \<lparr>vf_image = img, vf_number = n, vf_timestamp_ns = t,
                                           vf_order = CHANNEL_ORDER_BGR\<rparr>]
     \<and> files w2 = files w1 \<and> stdout w2 = stdout w1"
proof -
  let ?vf = "\<lparr>vf_image = img, vf_number = n, vf_timestamp_ns = t, vf_order = CHANNEL_ORDER_BGR\<rparr>"
  have "videofaces v (str n) = None" using assms(6) start_Inr(2)[OF assms(1)] by simp
  then have "make_frame v (img, pos) w1 = (Inl (KeyError (str n)), do_call (CreateFrame ?vf) w1)"
    using assms(4,5) by (simp add: make_frame_def Let_def)
  then have "iteration v (img, pos) w1 = Raise (KeyError (str n)) (do_call (CreateFrame ?vf) w1)"
    by (rule iteration_not_made)
  then have "loop v (cap_frames cap) w = (Inl (KeyError (str n)), do_call (CreateFrame ?vf) w1)"
    using loop_append[OF assms(3)] assms(2) by simp
  then show ?thesis using doExtraction_started[OF assms(1)] by simp
qed

theorem missing_annotation_raises_witness:
  "fst (ex_run [(1, CHUNKREADY)] 1 [1, 2] [1] (Some ''out'') []) = Inl (KeyError ''2'')
   \<and> last (calls (snd (ex_run [(1, CHUNKREADY)] 1 [1, 2] [1] (Some ''out'') []))) =
       CreateFrame \<lparr>vf_image = [], vf_number = 2, vf_timestamp_ns = Finite 2000000000,
                    vf_order = CHANNEL_ORDER_BGR\<rparr>"
proof -
  obtain v cap w w1
    where s: "start (ex_env [(1, CHUNKREADY)] 1 [1, 2] [1]) ''video.mp4'' ''faces.json''
                ''study.dat'' (Some ''out'') (ex_world []) = (Inr (v, cap), w)"
      and f: "cap_frames cap = [([], Finite 1)] @ ([], Finite 2) # []"
      and p: "passes v [([], Finite 1)] w = Some w1"
      and t: "int_mul_float 2 (durationOneFrame_ns v) = Inr (Finite 2000000000)"
    by (simp add: ex_defs)
  have i: "py_int (Finite 2) = Inr 2" by simp
  have l: "load_frames (ex_env [(1, CHUNKREADY)] 1 [1, 2] [1]) ''faces.json'' (str 2) = None"
    by (simp add: ex_env_def str_1 str_2)
  from missing_annotation_raises[OF s f p i t l] show ?thesis
    by (auto simp: ex_run_def str_2)
qed

subsection \<open>C6: releasing the capture\<close>

text \<open>
  The capture is not released on every way out.  A video of two frames with face tracking
  data for the first frame only: the lookup for frame 2 raises \<^verbatim>\<open>KeyError\<close>, the exception
  leaves \<^verbatim>\<open>doExtraction\<close> past \<^verbatim>\<open>videocap.release()\<close>, and the capture is still held.
\<close>

theorem missing_annotation_leaks_counterexample:
  "fst (ex_run [] 1 [1, 2] [1] None []) = Inl (KeyError ''2'')
   \<and> \<not> released (snd (ex_run [] 1 [1, 2] [1] None []))"
  by (simp add: ex_defs)

text \<open>
  Claim C6, as the code has it.  Whenever \<^verbatim>\<open>doExtraction\<close> returns (after the end of the
  video, after \<^verbatim>\<open>COMPLETED\<close>, or after the key \<^verbatim>\<open>q\<close>), the capture has been released.
  Whenever an exception leaves it (a frame without face data, a frame rate of zero, a
  failed initialisation), \<^verbatim>\<open>videocap.release()\<close> has not been reached: the capture is as it
  was before the call.
\<close>

theorem released_when_returning:
  assumes "doExtraction env videoPath facePath studyPath out w0 = (r, w)"
  shows "((\<exists>u. r = Inr u) \<longrightarrow> released w) \<and> ((\<exists>e. r = Inl e) \<longrightarrow> released w = released w0)"
proof (cases "start env videoPath facePath studyPath out w0")
  case (Pair s ws)
  show ?thesis
  proof (cases s)
    case (Inl e)
    with Pair assms start_Inl(2)[of env videoPath facePath studyPath out w0 e ws]
    show ?thesis by (auto simp: doExtraction_not_started)
  next
    case (Inr p)
    obtain v cap where p: "p = (v, cap)" by (cases p)
    have s: "start env videoPath facePath studyPath out w0 = (Inr (v, cap), ws)"
      using Pair Inr p by simp
    have rel: "released (snd (loop v (cap_frames cap) ws)) = released w0"
      using start_Inr(6)[OF s] by simp
    show ?thesis
    proof (cases "loop v (cap_frames cap) ws")
      case (Pair l wl)
      with rel assms show ?thesis
        by (cases l) (auto simp: doExtraction_started[OF s])
    qed
  qed
qed

theorem released_when_returning_witness:
  "fst (ex_run [] 1 [10, 11] [10, 11] None [113]) = Inr ()
   \<and> last (stdout (snd (ex_run [] 1 [10, 11] [10, 11] None [113]))) = CollectionInterruptedOrFailed
   \<and> released (snd (ex_run [] 1 [10, 11] [10, 11] None [113]))"
proof -
  have r: "fst (ex_run [] 1 [10, 11] [10, 11] None [113]) = Inr ()"
    and l: "last (stdout (snd (ex_run [] 1 [10, 11] [10, 11] None [113]))) = CollectionInterruptedOrFailed"
    by (simp_all add: ex_defs str_10)
  have "doExtraction (ex_env [] 1 [10, 11] [10, 11]) ''video.mp4'' ''faces.json'' ''study.dat'' None
          (ex_world [113]) = (fst (ex_run [] 1 [10, 11] [10, 11] None [113]),
                              snd (ex_run [] 1 [10, 11] [10, 11] None [113]))"
    by (simp add: ex_run_def)
  from released_when_returning[OF this] r l show ?thesis by simp
qed

subsection \<open>C7: the key that ends the run\<close>

text \<open>
  The key is not looked at in every pass.  With the key \<^verbatim>\<open>q\<close> waiting and a video of the
  frames 1 and 2, no frame is shown, \<^verbatim>\<open>cv2.waitKey\<close> is never called (the key is still
  waiting at the end), the chunk is asked for at the end of the video and the run reports
  that the collection finished completely.
\<close>

theorem key_not_checked_counterexample:
  "fst (ex_run [] 1 [1, 2] [1, 2] None [113]) = Inr ()
   \<and> last (calls (snd (ex_run [] 1 [1, 2] [1, 2] None [113]))) = GetChunkData (Some ex_payload)
   \<and> last (stdout (snd (ex_run [] 1 [1, 2] [1, 2] None [113]))) = CollectionFinishedCompletely
   \<and> keys (snd (ex_run [] 1 [1, 2] [1, 2] None [113])) = [113]
   \<and> shown (snd (ex_run [] 1 [1, 2] [1, 2] None [113])) = []"
  by (simp add: ex_defs)

text \<open>
  Claim C7, as the code has it.  The key is looked at once in every pass whose frame
  number is a multiple of 10 and whose submit did not answer \<^verbatim>\<open>COMPLETED\<close>, namely when
  that frame is shown, and in no other pass.  Whenever the key read there is \<^verbatim>\<open>q\<close> (its
  code modulo 256 is 113), the loop ends with \<^verbatim>\<open>success = False\<close>: no call on the
  collector follows, so no chunk is asked for at the end, the run reports that the
  collection was interrupted or failed, releases the capture and returns.
\<close>

theorem cancellation_on_shown_frames:
  assumes "start env videoPath facePath studyPath out w0 = (Inr (v, cap), ws)"
    and "cap_frames cap = pre @ fr # post"
    and "passes v pre ws = Some w"
    and "make_frame v fr w = (Inr frame, w1)"
    and "submit v frame w1 = (result, w2)"
  shows "keys (step_world (iteration v fr w)) =
           (if frame_number frame mod 10 = 0 \<and> result \<noteq> COMPLETED then tl (keys w) else keys w)
     \<and> shown (step_world (iteration v fr w)) =
           (if frame_number frame mod 10 = 0 \<and> result \<noteq> COMPLETED
            then shown w @ [frame_number frame] else shown w)
     \<and> (frame_number frame mod 10 = 0 \<and> result \<noteq> COMPLETED \<and> keys w \<noteq> []
          \<and> hd (keys w) mod 256 = 113 \<longrightarrow>
          (\<exists>w3. doExtraction env videoPath facePath studyPath out w0 = (Inr (), w3)
             \<and> calls w3 = calls w2 @
                  (if result = CHUNKREADY then [GetChunkData (getChunkData (dfx env) (calls w2))]
                   else [])
             \<and> last (stdout w3) = CollectionInterruptedOrFailed
             \<and> released w3))"
proof -
  define wx where "wx = (if result = CHUNKREADY then grab_chunk v w2 else w2)"
  have it: "iteration v fr w =
     (if result = COMPLETED
      then Break True (py_print (CompletedAtFrame (frame_number frame)) (grab_chunk v w2))
      else render (frame_number frame) wx)"
    using iteration_made[OF assms(4,5)] by (simp add: wx_def)
  have k2: "keys w2 = keys w" and s2: "shown w2 = shown w"
    using make_frame_Inr(8,9)[OF assms(4)] submit_fields(6,7)[OF assms(5)] by simp_all
  have kx: "keys wx = keys w" and sx: "shown wx = shown w"
    using k2 s2 by (simp_all add: wx_def)
  have cx: "calls wx = calls w2 @
      (if result = CHUNKREADY then [GetChunkData (getChunkData (dfx env) (calls w2))] else [])"
    using start_Inr(1)[OF assms(1)] by (simp add: wx_def)
  have A: "keys (step_world (iteration v fr w)) =
           (if frame_number frame mod 10 = 0 \<and> result \<noteq> COMPLETED then tl (keys w) else keys w)"
    using it kx k2 by (simp add: render_keys)
  have B: "shown (step_world (iteration v fr w)) =
           (if frame_number frame mod 10 = 0 \<and> result \<noteq> COMPLETED
            then shown w @ [frame_number frame] else shown w)"
    using it sx s2 by (simp add: render_shown)
  have C: "\<exists>w3. doExtraction env videoPath facePath studyPath out w0 = (Inr (), w3)
             \<and> calls w3 = calls w2 @
                  (if result = CHUNKREADY then [GetChunkData (getChunkData (dfx env) (calls w2))]
                   else [])
             \<and> last (stdout w3) = CollectionInterruptedOrFailed
             \<and> released w3"
    if q: "frame_number frame mod 10 = 0" "result \<noteq> COMPLETED" "keys w \<noteq> []"
      "hd (keys w) mod 256 = 113"
  proof -
    obtain k ks where ks: "keys wx = k # ks" "k mod 256 = 113"
      using q(3,4) kx by (cases "keys w") simp_all
    define wq where "wq = wx\<lparr>shown := shown wx @ [frame_number frame], keys := ks\<rparr>"
    have "render (frame_number frame) wx = Break False wq"
      unfolding wq_def using q(1) ks by (rule render_quit)
    then have "iteration v fr w = Break False wq" using it q(2) by simp
    then have "loop v (fr # post) w = (Inr False, wq)" by simp
    then have "loop v (cap_frames cap) ws = (Inr False, wq)"
      using loop_append[OF assms(3)] assms(2) by simp
    then have "doExtraction env videoPath facePath studyPath out w0 = (Inr (), finish False wq)"
      using doExtraction_started[OF assms(1)] by simp
    moreover have "calls wq = calls wx" by (simp add: wq_def)
    ultimately show ?thesis using cx by simp
  qed
  show ?thesis
  proof (intro conjI impI)
    show "keys (step_world (iteration v fr w)) =
           (if frame_number frame mod 10 = 0 \<and> result \<noteq> COMPLETED then tl (keys w) else keys w)"
      by (rule A)
    show "shown (step_world (iteration v fr w)) =
           (if frame_number frame mod 10 = 0 \<and> result \<noteq> COMPLETED
            then shown w @ [frame_number frame] else shown w)"
      by (rule B)
  qed (elim conjE, rule C)
qed

theorem cancellation_on_shown_frames_witness:
  "fst (ex_run [(20, CHUNKREADY)] 1 [20, 21] [20, 21] None [369]) = Inr ()
   \<and> last (stdout (snd (ex_run [(20, CHUNKREADY)] 1 [20, 21] [20, 21] None [369]))) =
        CollectionInterruptedOrFailed
   \<and> released (snd (ex_run [(20, CHUNKREADY)] 1 [20, 21] [20, 21] None [369]))"
proof -
  obtain v cap ws frame w1 result w2
    where s: "start (ex_env [(20, CHUNKREADY)] 1 [20, 21] [20, 21]) ''video.mp4'' ''faces.json''
                ''study.dat'' None (ex_world [369]) = (Inr (v, cap), ws)"
      and f: "cap_frames cap = [] @ ([], Finite 20) # [([], Finite 21)]"
      and p: "passes v [] ws = Some ws"
      and m: "make_frame v ([], Finite 20) ws = (Inr frame, w1)"
      and u: "submit v frame w1 = (result, w2)"
      and q: "frame_number frame mod 10 = 0" "result \<noteq> COMPLETED" "keys ws \<noteq> []"
        "hd (keys ws) mod 256 = 113"
    by (simp add: ex_defs str_20 frame_number_def)
  from cancellation_on_shown_frames[OF s f p m u] q
  have "\<exists>w3. doExtraction (ex_env [(20, CHUNKREADY)] 1 [20, 21] [20, 21]) ''video.mp4''
      ''faces.json'' ''study.dat'' None (ex_world [369]) = (Inr (), w3)
      \<and> last (stdout w3) = CollectionInterruptedOrFailed \<and> released w3"
    by blast
  then show ?thesis by (auto simp: ex_run_def)
qed

subsection \<open>C8: a run without an output folder\<close>










subsection \<open>C9: a frame rate of zero\<close>

text \<open>
  Claim C9.  When the capture reports a frame rate of 0, as a capture that failed to open
  does, the division that computes the duration of one frame raises
  \<^verbatim>\<open>ZeroDivisionError\<close>; nothing catches it, so the run ends there, before any call on
  the collector and so before any frame is submitted, and the capture is not released.
  For a positive frame rate neither of the two divisions by it raises
  \<^verbatim>\<open>ZeroDivisionError\<close>.
\<close>

theorem zero_fps_aborts:
  assumes "initializeStudyFromFile (dfx env) studyPath"
    and "getCollectorState (dfx env) \<noteq> ERROR"
    and "CAP_PROP_FPS (open_video env videoPath) = Finite 0"
  shows "(\<exists>w. doExtraction env videoPath facePath studyPath out w0 = (Inl ZeroDivisionError, w)
            \<and> calls w = calls w0 \<and> released w = released w0)
       \<and> (\<forall>q n. 0 < q \<longrightarrow>
             float_truediv (Finite 1000000000) (Finite q) = Inr (round_double (1000000000 / q))
           \<and> int_truediv_float n (Finite q) \<noteq> Inl ZeroDivisionError)"
proof -
  have "doExtraction env videoPath facePath studyPath out w0 =
     (Inl ZeroDivisionError,
      py_print CreatedCollector (py_print (CreatedStudy studyPath) (py_print CreatedFactory w0)))"
    using start_zero_fps[OF assms] by (simp add: doExtraction_def)
  moreover have "int_truediv_float n (Finite q) \<noteq> Inl ZeroDivisionError" if "0 < q" for q n
    using that by (simp add: int_truediv_float_def float_of_int_def split: pyfloat.splits)
  ultimately show ?thesis by simp
qed

theorem zero_fps_aborts_witness:
  "fst (ex_run [] 0 [] [] None []) = Inl ZeroDivisionError
   \<and> calls (snd (ex_run [] 0 [] [] None [])) = []
   \<and> \<not> released (snd (ex_run [] 0 [] [] None []))"
proof -
  have "initializeStudyFromFile (dfx (ex_env [] 0 [] [])) ''study.dat''"
    and "getCollectorState (dfx (ex_env [] 0 [] [])) \<noteq> ERROR"
    and "CAP_PROP_FPS (open_video (ex_env [] 0 [] []) ''video.mp4'') = Finite 0"
    by (simp_all add: ex_env_def ex_dfx_def)
  from zero_fps_aborts[OF this, of "''faces.json''" None "ex_world []"]
  show ?thesis by (auto simp: ex_run_def ex_world_def)
qed

subsection \<open>C10: the marker of frame 1000\<close>

text \<open>
  Claim C10.  Among the frames that a run hands to the collector, a frame whose number
  is 1000 carries exactly the marker \<^verbatim>\<open>This is the 1000th frame\<close> and every other frame
  carries no marker, whatever the video, the answers of the collector and the keys.
\<close>

theorem marker_on_frame_1000_only:
  assumes "doExtraction env videoPath facePath studyPath out w0 = (r, w)"
    and "calls w = calls w0 @ new"
  shows "\<forall>f \<in> set (submitted new).
           markers f = (if frame_number f = 1000 then [''This is the 1000th frame''] else [])"
proof (cases "start env videoPath facePath studyPath out w0")
  case (Pair s ws)
  show ?thesis
  proof (cases s)
    case (Inl e)
    with Pair assms start_Inl(1)[of env videoPath facePath studyPath out w0 e ws]
    show ?thesis by (auto simp: doExtraction_not_started submitted_def)
  next
    case (Inr p)
    obtain v cap where p: "p = (v, cap)" by (cases p)
    have s: "start env videoPath facePath studyPath out w0 = (Inr (v, cap), ws)"
      using Pair Inr p by simp
    obtain n where c0: "calls ws = calls w0 @ [SetTargetFPS (CAP_PROP_FPS cap),
        SetChunkDurationSeconds 5, SetNumberChunks n, StartCollection]"
      using start_calls[OF s] by blast
    obtain new1 where c1: "calls (snd (loop v (cap_frames cap) ws)) = calls ws @ new1"
      and fr: "list_all (frame_rule v) (submitted new1)"
      using loop_calls by blast
    have "calls w = calls (snd (loop v (cap_frames cap) ws))"
      using assms(1) by (auto simp: doExtraction_started[OF s] split: prod.splits sum.splits)
    then have "new = [SetTargetFPS (CAP_PROP_FPS cap), SetChunkDurationSeconds 5,
        SetNumberChunks n, StartCollection] @ new1"
      using assms(2) c0 c1 by simp
    then have "submitted new = submitted new1" by (simp add: submitted_def)
    with fr show ?thesis by (auto simp: list_all_iff frame_rule_def marker_rule_def)
  qed
qed

theorem marker_on_frame_1000_only_witness:
  "map frame_number (submitted (calls (snd (ex_run [] 1 [1000, 1001] [1000, 1001] None [])))) = [1000, 1001]
   \<and> map markers (submitted (calls (snd (ex_run [] 1 [1000, 1001] [1000, 1001] None [])))) =
        [[''This is the 1000th frame''], []]
   \<and> list_all marker_rule (submitted (calls (snd (ex_run [] 1 [1000, 1001] [1000, 1001] None []))))"
proof -
  have a: "map frame_number (submitted (calls (snd (ex_run [] 1 [1000, 1001] [1000, 1001] None [])))) = [1000, 1001]"
    and b: "map markers (submitted (calls (snd (ex_run [] 1 [1000, 1001] [1000, 1001] None [])))) =
        [[''This is the 1000th frame''], []]"
    by (simp_all add: ex_defs str_1000 str_1001 submitted_def frame_number_def)
  have "doExtraction (ex_env [] 1 [1000, 1001] [1000, 1001]) ''video.mp4'' ''faces.json''
          ''study.dat'' None (ex_world []) =
        (fst (ex_run [] 1 [1000, 1001] [1000, 1001] None []),
         snd (ex_run [] 1 [1000, 1001] [1000, 1001] None []))"
    by (simp add: ex_run_def)
  moreover have "calls (snd (ex_run [] 1 [1000, 1001] [1000, 1001] None [])) =
      calls (ex_world []) @ calls (snd (ex_run [] 1 [1000, 1001] [1000, 1001] None []))"
    by (simp add: ex_world_def)
  ultimately have "\<forall>f \<in> set (submitted (calls (snd (ex_run [] 1 [1000, 1001] [1000, 1001] None [])))).
      markers f = (if frame_number f = 1000 then [''This is the 1000th frame''] else [])"
    by (rule marker_on_frame_1000_only)
  then have "list_all marker_rule (submitted (calls (snd (ex_run [] 1 [1000, 1001] [1000, 1001] None []))))"
    by (simp add: list_all_iff marker_rule_def)
  with a b show ?thesis by simp
qed

end
